theory Spec2Isabelle
  imports Complex_Main "HOL-Library.Multiset"
begin

section \<open>Data model (types.ts)\<close>

text \<open>
  A JavaScript number that holds a probability is modelled as a real: the classifier emits
  finite doubles, on which comparison and the sign of a difference agree with the reals.
  Counters, pixel sizes and millisecond values are integers of the source and are modelled
  as \<open>nat\<close> or \<open>int\<close>. A string is a list of code units below 256. Three field names
  of the source are taken by Isabelle or by another record and are written differently:
  \<open>type\<close> of a history entry is \<open>ftype\<close>, \<open>text\<close> of a response is \<open>text'\<close>, and
  \<open>status\<close> of a thrown error is \<open>status_code\<close>.
\<close>

record Prediction =
  className :: string
  probability :: real

datatype FeedbackType = CORRECTION | CONFIRMATION

record FeedbackHistory =
  timestamp :: int
  originalLabel :: string
  correctedLabel :: string
  ftype :: FeedbackType

datatype AppStatus = IDLE | LOADING_MODEL | READY | RUNNING | ERROR

datatype InputSource = DRIVE | CAMERA

section \<open>Array.prototype.sort with a comparator\<close>

text \<open>
  \<open>[...results].sort(cmp)\<close> copies the array and sorts the copy. The language fixes the
  result of \<open>sort\<close> for a consistent comparator: \<open>a\<close> comes before \<open>b\<close> when
  \<open>cmp a b < 0\<close>, after it when \<open>cmp a b > 0\<close>, and elements that compare equal keep
  their order (the sort is stable since ECMAScript 2019). The reference model is the
  insertion sort that walks the array from the left and puts each element behind every
  element already placed that does not have to come after it.
\<close>

fun js_insert :: "('a \<Rightarrow> 'a \<Rightarrow> real) \<Rightarrow> 'a \<Rightarrow> 'a list \<Rightarrow> 'a list" where
  "js_insert cmp x [] = [x]"
| "js_insert cmp x (y # ys) =
     (if cmp y x > 0 then x # y # ys else y # js_insert cmp x ys)"

fun js_sort_from :: "('a \<Rightarrow> 'a \<Rightarrow> real) \<Rightarrow> 'a list \<Rightarrow> 'a list \<Rightarrow> 'a list" where
  "js_sort_from cmp acc [] = acc"
| "js_sort_from cmp acc (x # xs) = js_sort_from cmp (js_insert cmp x acc) xs"

definition js_sort :: "('a \<Rightarrow> 'a \<Rightarrow> real) \<Rightarrow> 'a list \<Rightarrow> 'a list" where
  "js_sort cmp xs = js_sort_from cmp [] xs"

text \<open>The comparator of \<open>analyzeImage\<close>: \<open>(a, b) => b.probability - a.probability\<close>.\<close>

definition byProbabilityDesc :: "Prediction \<Rightarrow> Prediction \<Rightarrow> real" where
  "byProbabilityDesc a b = probability b - probability a"

definition sortedResults :: "Prediction list \<Rightarrow> Prediction list" where
  "sortedResults results = js_sort byProbabilityDesc results"

abbreviation descending :: "Prediction list \<Rightarrow> bool" where
  "descending \<equiv> sorted_wrt (\<lambda>a b. probability a \<ge> probability b)"

section \<open>The text-generation service (services/geminiService.ts)\<close>

subsection \<open>Strings\<close>

text \<open>\<open>String.prototype.includes\<close>: whether the needle occurs as a contiguous run.\<close>

fun startsWith :: "string \<Rightarrow> string \<Rightarrow> bool" where
  "startsWith s [] = True"
| "startsWith [] (n # ns) = False"
| "startsWith (c # cs) (n # ns) = (c = n \<and> startsWith cs ns)"

fun str_includes :: "string \<Rightarrow> string \<Rightarrow> bool" where
  "str_includes [] needle = (needle = [])"
| "str_includes (c # cs) needle = (startsWith (c # cs) needle \<or> str_includes cs needle)"

subsection \<open>The external generator\<close>

text \<open>
  What a failed call throws is typed \<open>any\<close> in the source and is read through
  \<open>error?.message\<close> and \<open>error?.status\<close> (here \<open>status_code\<close>, as the
  application has a \<open>status\<close> of its own); a field that is absent (or a thrown
  \<open>null\<close>) is \<open>None\<close>.
\<close>

record ApiError =
  message :: "string option"
  status_code :: "int option"

record GenerateContentConfig =
  temperature :: real
  topK :: "nat option"
  topP :: "real option"

record GenerateContentParameters =
  model :: string
  contents :: string
  config :: GenerateContentConfig

record GenerateContentResponse =
  text' :: "string option"

text \<open>
  The network, as far as the service sees it, is one trace of what happened, oldest
  first: a call of the operation, or a sleep of so many milliseconds. The trace keeps
  the order of calls and sleeps, so it tells a retry that waited before calling again
  from one that did not. \<open>calls\<close> counts the calls made so far and \<open>waits\<close> lists the
  delays slept through. A fallible operation \<open>fn : () => Promise<T>\<close> is a function of
  the number of calls made before it: the backend may answer each call differently.
\<close>

datatype net_event = Call | Sleep int

record net =
  events :: "net_event list"

definition calls :: "net \<Rightarrow> nat" where
  "calls w = length (filter (\<lambda>ev. ev = Call) (events w))"

fun delay_of :: "net_event \<Rightarrow> int list" where
  "delay_of Call = []"
| "delay_of (Sleep ms) = [ms]"

definition waits :: "net \<Rightarrow> int list" where
  "waits w = concat (map delay_of (events w))"

type_synonym 'a operation = "nat \<Rightarrow> ApiError + 'a"

type_synonym generator = "GenerateContentParameters \<Rightarrow> GenerateContentResponse operation"

definition invoke :: "'a operation \<Rightarrow> net \<Rightarrow> (ApiError + 'a) \<times> net" where
  "invoke fn w = (fn (calls w), w\<lparr>events := events w @ [Call]\<rparr>)"

definition sleep :: "int \<Rightarrow> net \<Rightarrow> net" where
  "sleep ms w = w\<lparr>events := events w @ [Sleep ms]\<rparr>"

subsection \<open>callWithRetry\<close>

definition isRateLimit :: "ApiError \<Rightarrow> bool" where
  "isRateLimit error =
     ((case message error of None \<Rightarrow> False | Some m \<Rightarrow> str_includes m ''RESOURCE_EXHAUSTED'')
      \<or> status_code error = Some 429)"

function callWithRetry :: "'a operation \<Rightarrow> int \<Rightarrow> int \<Rightarrow> net \<Rightarrow> (ApiError + 'a) \<times> net" where
  "callWithRetry fn retries initialDelay w =
     (case invoke fn w of
        (Inr v, w1) \<Rightarrow> (Inr v, w1)
      | (Inl error, w1) \<Rightarrow>
          if retries > 0 \<and> isRateLimit error
          then callWithRetry fn (retries - 1) (initialDelay * 2) (sleep initialDelay w1)
          else (Inl error, w1))"
  by pat_completeness auto
termination
  by (relation "measure (\<lambda>(fn, retries, initialDelay, w). nat retries)") auto

declare callWithRetry.simps [simp del]

subsection \<open>getInsightForClass and processFeedback\<close>

text \<open>
  An \<open>async\<close> function returns a promise that may reject, so its result is a sum; a
  \<open>try { body } catch (error) { handler }\<close> runs the handler on whatever the body throws.
\<close>

definition try_catch ::
  "(ApiError + 'a) \<times> net \<Rightarrow> (ApiError \<Rightarrow> net \<Rightarrow> (ApiError + 'a) \<times> net) \<Rightarrow> (ApiError + 'a) \<times> net" where
  "try_catch body handler = (case body of (Inr v, w) \<Rightarrow> (Inr v, w) | (Inl error, w) \<Rightarrow> handler error w)"

definition newline :: string where
  "newline = [CHR 0x0A]"

definition dquote :: string where
  "dquote = [CHR 0x22]"

definition insightPrompt :: "string \<Rightarrow> string" where
  "insightPrompt className' =
     ''Provide a short, 2-sentence interesting insight or fact about these items identified in an image: ''
     @ dquote @ className' @ dquote @ ''. '' @ newline
     @ ''      '' @ newline
     @ ''      Note: The image is in horizontal, regular orientation. '' @ newline
     @ ''      '' @ newline
     @ ''      If there is more than one item, try to mention how they relate or give a quick fact about the most interesting one. Keep it friendly and informative.''"

definition insightFallback :: string where
  "insightFallback = ''The model has high confidence in this identification. What else can you show it?''"

definition insightRequest :: "string \<Rightarrow> GenerateContentParameters" where
  "insightRequest className' =
     \<lparr>model = ''gemini-3-flash-preview'',
      contents = insightPrompt className',
      config = \<lparr>temperature = 0.7, topK = Some 40, topP = Some 0.95\<rparr>\<rparr>"

definition getInsightForClass :: "generator \<Rightarrow> string \<Rightarrow> net \<Rightarrow> (ApiError + string option) \<times> net" where
  "getInsightForClass generateContent className' w =
     try_catch
       (case callWithRetry (generateContent (insightRequest className')) 3 2000 w of
          (Inr response, w1) \<Rightarrow> (Inr (text' response), w1)
        | (Inl error, w1) \<Rightarrow> (Inl error, w1))
       (\<lambda>error w1. (Inr (Some insightFallback), w1))"

definition feedbackPrompt :: "string \<Rightarrow> string \<Rightarrow> string" where
  "feedbackPrompt className' feedbackType =
     ''The vision model identified the following: '' @ dquote @ className' @ dquote
     @ '' (assuming horizontal orientation). The user marked this identification as ''
     @ feedbackType @ ''. '' @ newline
     @ ''      If it was correct, give a quick '' @ dquote @ ''Great!'' @ dquote @ '' style encouragement. '' @ newline
     @ ''      If it was incorrect, give a humble acknowledgement that we'' @ [CHR 0x27]
     @ ''ll use this to improve future training data. '' @ newline
     @ ''      Keep the response under 15 words.''"

definition feedbackFallback :: "bool \<Rightarrow> string" where
  "feedbackFallback isCorrect =
     (if isCorrect then ''Glad to hear it! Analysis confirmed.''
      else ''Understood. Feedback logged for model refinement.'')"

definition feedbackRequest :: "string \<Rightarrow> bool \<Rightarrow> GenerateContentParameters" where
  "feedbackRequest className' isCorrect =
     (let feedbackType = (if isCorrect then ''correct'' else ''incorrect'') in
      \<lparr>model = ''gemini-3-flash-preview'',
       contents = feedbackPrompt className' feedbackType,
       config = \<lparr>temperature = 0.8, topK = None, topP = None\<rparr>\<rparr>)"

definition processFeedback :: "generator \<Rightarrow> string \<Rightarrow> bool \<Rightarrow> net \<Rightarrow> (ApiError + string option) \<times> net" where
  "processFeedback generateContent className' isCorrect w =
     try_catch
       (case callWithRetry (generateContent (feedbackRequest className' isCorrect)) 3 2000 w of
          (Inr response, w1) \<Rightarrow> (Inr (text' response), w1)
        | (Inl error, w1) \<Rightarrow> (Inl error, w1))
       (\<lambda>error w1. (Inr (Some (feedbackFallback isCorrect)), w1))"

text \<open>The delays of \<open>k\<close> successive retries that start at \<open>d\<close> and double each time.\<close>

definition backoff :: "int \<Rightarrow> nat \<Rightarrow> int list" where
  "backoff d k = map (\<lambda>i. d * 2 ^ i) [0..<k]"

text \<open>
  The trace of a run with \<open>k\<close> retries from the delay \<open>d\<close>: each of the first \<open>k\<close>
  calls is followed by its sleep, and the call after the last sleep ends the run.
\<close>

definition retry_trace :: "int \<Rightarrow> nat \<Rightarrow> net_event list" where
  "retry_trace d k = concat (map (\<lambda>i. [Call, Sleep (d * 2 ^ i)]) [0..<k]) @ [Call]"

section \<open>The application (App.tsx)\<close>

subsection \<open>The scratch canvas\<close>

text \<open>
  A 2D context keeps a current transformation \<open>(a, b, c, d, e, f)\<close>, which sends the
  point \<open>(x, y)\<close> to \<open>(a x + c y + e, b x + d y + f)\<close>; every drawing command is
  painted under the transformation current at that moment. Assigning \<open>canvas.width\<close>
  or \<open>canvas.height\<close> clears the bitmap and resets the context to its defaults.
\<close>

type_synonym matrix = "real \<times> real \<times> real \<times> real \<times> real \<times> real"

definition identity :: matrix where
  "identity = (1, 0, 0, 1, 0, 0)"

definition apply_matrix :: "matrix \<Rightarrow> real \<times> real \<Rightarrow> real \<times> real" where
  "apply_matrix m p =
     (case m of (a, b, c, d, e, f) \<Rightarrow> case p of (x, y) \<Rightarrow> (a * x + c * y + e, b * x + d * y + f))"

record HTMLVideoElement =
  videoWidth :: nat
  videoHeight :: nat

record HTMLImageElement =
  naturalWidth :: nat
  naturalHeight :: nat

datatype CanvasImageSource = VideoSource HTMLVideoElement | ImageSource HTMLImageElement

datatype canvas_op =
    ClearRect real real real real
  | DrawImage CanvasImageSource real real real real real real real real

record HTMLCanvasElement =
  width :: nat
  height :: nat
  context2d :: bool
  transform :: matrix
  painted :: "(matrix \<times> canvas_op) list"

definition set_width :: "nat \<Rightarrow> HTMLCanvasElement \<Rightarrow> HTMLCanvasElement" where
  "set_width n canvas = canvas\<lparr>width := n, transform := identity, painted := []\<rparr>"

definition set_height :: "nat \<Rightarrow> HTMLCanvasElement \<Rightarrow> HTMLCanvasElement" where
  "set_height n canvas = canvas\<lparr>height := n, transform := identity, painted := []\<rparr>"

definition ctx_clearRect :: "real \<Rightarrow> real \<Rightarrow> real \<Rightarrow> real \<Rightarrow> HTMLCanvasElement \<Rightarrow> HTMLCanvasElement" where
  "ctx_clearRect x y w h canvas =
     canvas\<lparr>painted := painted canvas @ [(transform canvas, ClearRect x y w h)]\<rparr>"

definition ctx_translate :: "real \<Rightarrow> real \<Rightarrow> HTMLCanvasElement \<Rightarrow> HTMLCanvasElement" where
  "ctx_translate tx ty canvas =
     canvas\<lparr>transform :=
       (case transform canvas of (a, b, c, d, e, f) \<Rightarrow>
          (a, b, c, d, a * tx + c * ty + e, b * tx + d * ty + f))\<rparr>"

definition ctx_scale :: "real \<Rightarrow> real \<Rightarrow> HTMLCanvasElement \<Rightarrow> HTMLCanvasElement" where
  "ctx_scale sx sy canvas =
     canvas\<lparr>transform :=
       (case transform canvas of (a, b, c, d, e, f) \<Rightarrow> (a * sx, b * sx, c * sy, d * sy, e, f))\<rparr>"

definition ctx_drawImage ::
  "CanvasImageSource \<Rightarrow> real \<Rightarrow> real \<Rightarrow> real \<Rightarrow> real \<Rightarrow> real \<Rightarrow> real \<Rightarrow> real \<Rightarrow> real
     \<Rightarrow> HTMLCanvasElement \<Rightarrow> HTMLCanvasElement" where
  "ctx_drawImage src sx sy sw sh dx dy dw dh canvas =
     canvas\<lparr>painted := painted canvas @ [(transform canvas, DrawImage src sx sy sw sh dx dy dw dh)]\<rparr>"

subsection \<open>Component state, refs and the browser\<close>

text \<open>
  \<open>localStorage\<close> holds two keys. The history is stored through \<open>JSON.stringify\<close> and
  read back through \<open>JSON.parse\<close>, which return an array of such entries as it was, so
  the stored value is modelled as the list itself.
\<close>

record storage =
  tm_model_url :: "string option"
  tm_feedback_history :: "FeedbackHistory list option"

datatype timer = Reload

text \<open>
  One record holds the \<open>useState\<close> cells of the component, its refs, and what the handlers
  reach in the browser: \<open>localStorage\<close>, the network and the timers set with
  \<open>setTimeout\<close> (delay in milliseconds and action). React assigns \<open>imageElementRef\<close>,
  \<open>videoRef\<close> and \<open>processingCanvasRef\<close> when the elements mount; the handlers only read
  them.

  An \<open>async\<close> handler gives up control at each \<open>await\<close>, and other handlers may run
  before it goes on. \<open>inFlight\<close> lists what is suspended and waiting, oldest first: an
  analysis at the \<open>await\<close> of \<open>predict\<close> (with the buffer it passed), an analysis at
  the \<open>await\<close> of the insight (with the label it asked about), and a \<open>FileReader\<close>
  that is reading a chosen file. \<open>analyzeImage\<close> and the choice of a file are given in
  steps: the part that runs at once, and one function for each continuation, which works
  on the state as it is when the continuation runs. The three feedback handlers further
  down are given as one run each, from the click to the end of the last continuation,
  with no other handler in between.
\<close>

datatype suspended =
    AwaitPredict HTMLCanvasElement
  | AwaitInsight string
  | AwaitFileRead string

record app =
  modelUrl :: string
  showSettings :: bool
  status :: AppStatus
  predictions :: "Prediction list"
  error :: "string option"
  insight :: "string option"
  isInsightLoading :: bool
  inputSource :: InputSource
  targetImage :: "string option"
  imagePreview :: "string option"
  shouldFlip :: bool
  isCameraActive :: bool
  predictionIndex :: nat
  isManualInput :: bool
  manualValue :: string
  feedbackGiven :: bool
  feedbackResponse :: "string option"
  feedbackHistory :: "FeedbackHistory list"
  modelRef :: bool
  imageElementRef :: "HTMLImageElement option"
  videoRef :: "HTMLVideoElement option"
  processingCanvasRef :: "HTMLCanvasElement option"
  streamRef :: bool
  localStorage :: storage
  network :: net
  timers :: "(int \<times> timer) list"
  inFlight :: "suspended list"

definition DEFAULT_MODEL_URL :: string where
  "DEFAULT_MODEL_URL = ''https://teachablemachine.withgoogle.com/models/qPzd94cSh/''"

subsection \<open>Mounting and reloading\<close>

text \<open>
  \<open>window.location.reload()\<close> discards the component and mounts a new one: every
  \<open>useState\<close> cell takes its initial value, of which \<open>modelUrl\<close> and
  \<open>feedbackHistory\<close> are read from \<open>localStorage\<close>; pending timers and suspended
  handlers are gone; the hidden canvas is a new element (300 by 150, nothing painted). The effect on
  \<open>feedbackHistory\<close> then writes the history back. \<open>mount\<close> is the state at that
  point, while the model is still loading.
\<close>

definition fresh_canvas :: HTMLCanvasElement where
  "fresh_canvas = \<lparr>width = 300, height = 150, context2d = True, transform = identity, painted = []\<rparr>"

definition mount :: "storage \<Rightarrow> net \<Rightarrow> app" where
  "mount store w =
     (let history = (case tm_feedback_history store of None \<Rightarrow> [] | Some saved \<Rightarrow> saved) in
      \<lparr>modelUrl = (case tm_model_url store of
                     None \<Rightarrow> DEFAULT_MODEL_URL
                   | Some url \<Rightarrow> if url = [] then DEFAULT_MODEL_URL else url),
       showSettings = False,
       status = LOADING_MODEL,
       predictions = [],
       error = None,
       insight = None,
       isInsightLoading = False,
       inputSource = DRIVE,
       targetImage = None,
       imagePreview = None,
       shouldFlip = False,
       isCameraActive = False,
       predictionIndex = 0,
       isManualInput = False,
       manualValue = [],
       feedbackGiven = False,
       feedbackResponse = None,
       feedbackHistory = history,
       modelRef = False,
       imageElementRef = None,
       videoRef = None,
       processingCanvasRef = Some fresh_canvas,
       streamRef = False,
       localStorage = store\<lparr>tm_feedback_history := Some history\<rparr>,
       network = w,
       timers = [],
       inFlight = []\<rparr>)"

definition reload :: "app \<Rightarrow> app" where
  "reload s = mount (localStorage s) (network s)"

subsection \<open>Camera and input source\<close>

definition stopCamera :: "app \<Rightarrow> app" where
  "stopCamera s = s\<lparr>streamRef := False, isCameraActive := False\<rparr>"

text \<open>\<open>granted\<close> tells whether \<open>getUserMedia\<close> resolves with a stream or rejects.\<close>

definition startCamera :: "bool \<Rightarrow> app \<Rightarrow> app" where
  "startCamera granted s =
     (if granted
      then (if videoRef s \<noteq> None then s\<lparr>streamRef := True, isCameraActive := True\<rparr> else s)
      else stopCamera (s\<lparr>error := Some ''Camera access denied.'', inputSource := DRIVE\<rparr>))"

text \<open>
  The source buttons call \<open>setInputSource\<close>; the effect on \<open>inputSource\<close> then starts or
  stops the camera. A denied camera sets the source back to \<open>DRIVE\<close>, on which the effect
  runs once more and stops the camera.
\<close>

definition setInputSource :: "bool \<Rightarrow> InputSource \<Rightarrow> app \<Rightarrow> app" where
  "setInputSource granted src s =
     (let s1 = s\<lparr>inputSource := src\<rparr> in
      if inputSource s1 = CAMERA then startCamera granted s1 else stopCamera s1)"

subsection \<open>resetFeedback and getProcessedCanvas\<close>

definition resetFeedback :: "app \<Rightarrow> app" where
  "resetFeedback s =
     s\<lparr>predictionIndex := 0,
       isManualInput := False,
       manualValue := [],
       feedbackGiven := False,
       feedbackResponse := None,
       insight := None,
       isInsightLoading := False\<rparr>"

text \<open>
  The source that is drawn, with its width and height: the video in camera mode when the
  video element is mounted, otherwise the image element when that is mounted.
\<close>

definition pick_source :: "app \<Rightarrow> CanvasImageSource option \<times> nat \<times> nat" where
  "pick_source s =
     (if inputSource s = CAMERA \<and> videoRef s \<noteq> None
      then (case videoRef s of
              Some v \<Rightarrow> (Some (VideoSource v), videoWidth v, videoHeight v)
            | None \<Rightarrow> (None, 0, 0))
      else (case imageElementRef s of
              Some i \<Rightarrow> (Some (ImageSource i), naturalWidth i, naturalHeight i)
            | None \<Rightarrow> (None, 0, 0)))"

text \<open>
  The canvas is one element shared by all calls, so the function returns the state in
  which the element has been written, next to the element it hands out (\<open>None\<close> for
  \<open>null\<close>).
\<close>

definition getProcessedCanvas :: "app \<Rightarrow> HTMLCanvasElement option \<times> app" where
  "getProcessedCanvas s =
     (case processingCanvasRef s of
        None \<Rightarrow> (None, s)
      | Some canvas \<Rightarrow>
          if \<not> context2d canvas then (None, s)
          else
            let canvas1 = set_height 224 (set_width 224 canvas) in
            case pick_source s of
              (source, sw, sh) \<Rightarrow>
                (case source of
                   None \<Rightarrow> (None, s\<lparr>processingCanvasRef := Some canvas1\<rparr>)
                 | Some src \<Rightarrow>
                     if sw = 0 \<or> sh = 0 then (None, s\<lparr>processingCanvasRef := Some canvas1\<rparr>)
                     else
                       let size = min sw sh;
                           offsetX = (real sw - real size) / 2;
                           offsetY = (real sh - real size) / 2;
                           canvas2 = ctx_clearRect 0 0 224 224 canvas1;
                           canvas3 = (if shouldFlip s
                                      then ctx_scale (- 1) 1 (ctx_translate 224 0 canvas2)
                                      else canvas2);
                           canvas4 = ctx_drawImage src offsetX offsetY (real size) (real size)
                                       0 0 224 224 canvas3
                       in (Some canvas4, s\<lparr>processingCanvasRef := Some canvas4\<rparr>)))"

subsection \<open>analyzeImage\<close>

text \<open>
  The handler runs at once up to the \<open>await\<close> of \<open>predict\<close> (line 160), where it is
  suspended with the buffer it passed. Anything thrown inside the \<open>try\<close> block, in
  whichever step, ends in the \<open>catch\<close>.
\<close>

definition analysisFailed :: "app \<Rightarrow> app" where
  "analysisFailed s = s\<lparr>error := Some ''Analysis engine error.'', status := ERROR\<rparr>"

definition analyzeImage :: "app \<Rightarrow> app" where
  "analyzeImage s =
     (if \<not> modelRef s then s
      else
        let s1 = resetFeedback (s\<lparr>status := RUNNING\<rparr>) in
        case getProcessedCanvas s1 of
          (None, s2) \<Rightarrow> analysisFailed s2
        | (Some processedInput, s2) \<Rightarrow>
            s2\<lparr>inFlight := inFlight s2 @ [AwaitPredict processedInput]\<rparr>)"

text \<open>
  The continuation at line 160, when \<open>predict\<close> has returned the raw predictions or has
  thrown: it stores the ranked predictions and either starts the insight fetch, where it
  is suspended again (line 165), or finishes.
\<close>

definition analyzeImage_predicted ::
  "HTMLCanvasElement \<Rightarrow> 'e + Prediction list \<Rightarrow> app \<Rightarrow> app" where
  "analyzeImage_predicted processedInput outcome s =
     (let s2 = s\<lparr>inFlight := remove1 (AwaitPredict processedInput) (inFlight s)\<rparr> in
      case outcome of
        Inl thrown \<Rightarrow> analysisFailed s2
      | Inr results \<Rightarrow>
          let s3 = s2\<lparr>predictions := sortedResults results\<rparr> in
          if length (sortedResults results) > 0
             \<and> probability (sortedResults results ! 0) > 0.05
          then s3\<lparr>isInsightLoading := True,
                  inFlight := inFlight s3 @ [AwaitInsight (className (sortedResults results ! 0))]\<rparr>
          else s3\<lparr>insight := Some ''Subject unrecognized.'', status := READY\<rparr>)"

text \<open>
  The continuation at line 165, when the insight fetch for \<open>label\<close> has settled; what
  the fetch did on the network is entered in the trace at this point.
\<close>

definition analyzeImage_insight :: "generator \<Rightarrow> string \<Rightarrow> app \<Rightarrow> app" where
  "analyzeImage_insight generateContent label s =
     (let s4 = s\<lparr>inFlight := remove1 (AwaitInsight label) (inFlight s)\<rparr> in
      case getInsightForClass generateContent label (network s4) of
        (Inl thrown, w) \<Rightarrow> analysisFailed (s4\<lparr>network := w\<rparr>)
      | (Inr geminiInsight, w) \<Rightarrow>
          s4\<lparr>network := w, insight := geminiInsight,
             isInsightLoading := False, status := READY\<rparr>)"

subsection \<open>The feedback log\<close>

text \<open>\<open>now\<close> is the value of \<open>Date.now()\<close> at the call.\<close>

definition addFeedbackToLog :: "int \<Rightarrow> string \<Rightarrow> string \<Rightarrow> FeedbackType \<Rightarrow> app \<Rightarrow> app" where
  "addFeedbackToLog now original corrected type s =
     (let entry = \<lparr>timestamp = now, originalLabel = original, correctedLabel = corrected,
                   ftype = type\<rparr>;
          newHistory = take 5 (entry # feedbackHistory s)
      in s\<lparr>feedbackHistory := newHistory,
           localStorage := (localStorage s)\<lparr>tm_feedback_history := Some newHistory\<rparr>\<rparr>)"

text \<open>
  \<open>predictions[predictionIndex]?.className || "Unknown"\<close>: the label under the cursor,
  and \<open>"Unknown"\<close> when there is no prediction at the cursor or its label is the empty
  string (which is falsy).
\<close>

definition labelAtCursor :: "app \<Rightarrow> string" where
  "labelAtCursor s =
     (if predictionIndex s < length (predictions s)
      then (if className (predictions s ! predictionIndex s) = [] then ''Unknown''
            else className (predictions s ! predictionIndex s))
      else ''Unknown'')"

subsection \<open>The feedback handlers\<close>

text \<open>
  Each of these is the whole run of the handler. A handler that awaits a rejected promise
  outside any \<open>try\<close> stops there; the state is the one reached before the \<open>await\<close>.
\<close>

definition handleCorrectFeedback :: "generator \<Rightarrow> int \<Rightarrow> app \<Rightarrow> app" where
  "handleCorrectFeedback generateContent now s =
     (let currentLabel = labelAtCursor s;
          s1 = s\<lparr>feedbackGiven := True\<rparr>;
          s2 = addFeedbackToLog now currentLabel currentLabel CONFIRMATION s1
      in case processFeedback generateContent currentLabel True (network s2) of
           (Inl thrown, w) \<Rightarrow> s2\<lparr>network := w\<rparr>
         | (Inr response, w) \<Rightarrow>
             s2\<lparr>network := w, feedbackResponse := response,
                timers := timers s2 @ [(4000, Reload)]\<rparr>)"

definition handleWrongFeedback :: "generator \<Rightarrow> app \<Rightarrow> app" where
  "handleWrongFeedback generateContent s =
     (if predictionIndex s = 0 \<and> length (predictions s) > 1
         \<and> probability (predictions s ! 1) > 0.05
      then
        let nextIndex = 1;
            s1 = s\<lparr>predictionIndex := nextIndex, insight := None, isInsightLoading := True\<rparr>;
            nextLabel = className (predictions s ! nextIndex)
        in case getInsightForClass generateContent nextLabel (network s1) of
             (Inl thrown, w) \<Rightarrow> s1\<lparr>network := w\<rparr>
           | (Inr geminiInsight, w) \<Rightarrow>
               s1\<lparr>network := w, insight := geminiInsight, isInsightLoading := False\<rparr>
      else s\<lparr>isManualInput := True\<rparr>)"

text \<open>
  \<open>String.prototype.trim\<close> strips white space and line terminators from both ends; among
  the code units below 256 these are 9 to 13, 32 and 160.
\<close>

definition isWhiteSpace :: "char \<Rightarrow> bool" where
  "isWhiteSpace c = ((of_char c :: nat) \<in> {9, 10, 11, 12, 13, 32, 160})"

definition trim :: "string \<Rightarrow> string" where
  "trim str = rev (dropWhile isWhiteSpace (rev (dropWhile isWhiteSpace str)))"

definition handleManualSubmit :: "generator \<Rightarrow> int \<Rightarrow> app \<Rightarrow> app" where
  "handleManualSubmit generateContent now s =
     (if trim (manualValue s) = [] then s
      else
        let original = labelAtCursor s;
            s1 = s\<lparr>feedbackGiven := True\<rparr>;
            s2 = addFeedbackToLog now original (manualValue s) CORRECTION s1
        in case processFeedback generateContent (manualValue s) False (network s2) of
             (Inl thrown, w) \<Rightarrow> s2\<lparr>network := w\<rparr>
           | (Inr response, w) \<Rightarrow>
               s2\<lparr>network := w,
                  feedbackResponse :=
                    Some (''Recorded '' @ dquote @ manualValue s @ dquote
                          @ '' as correction. Refreshing module...''),
                  timers := timers s2 @ [(4000, Reload)]\<rparr>)"

text \<open>
  \<open>file\<close> is \<open>e.target.files?.[0]\<close>. The handler stores the file and starts a
  \<open>FileReader\<close>; \<open>reader.onloadend\<close> runs later, with \<open>result\<close> what the reader then
  holds, and it is the callback that resets the session.
\<close>

definition handleTargetImageChange :: "string option \<Rightarrow> app \<Rightarrow> app" where
  "handleTargetImageChange file s =
     (case file of
        None \<Rightarrow> s
      | Some f \<Rightarrow> s\<lparr>targetImage := Some f, inFlight := inFlight s @ [AwaitFileRead f]\<rparr>)"

definition reader_onloadend :: "string \<Rightarrow> string option \<Rightarrow> app \<Rightarrow> app" where
  "reader_onloadend f result s =
     (let s1 = s\<lparr>inFlight := remove1 (AwaitFileRead f) (inFlight s)\<rparr> in
      (resetFeedback (s1\<lparr>imagePreview := result\<rparr>))\<lparr>predictions := []\<rparr>)"

subsection \<open>What the result area shows\<close>

text \<open>
  The result area renders the manual-entry form when \<open>isManualInput && !feedbackGiven\<close>,
  else the current prediction when \<open>predictions.length > 0\<close>, else the \<open>READY\<close>
  placeholder; the confirm and reject buttons sit under the prediction while
  \<open>!feedbackGiven\<close>.
\<close>

datatype panel = ManualEntryForm | DetectedSignal | ReadyPlaceholder

definition resultArea :: "app \<Rightarrow> panel" where
  "resultArea s =
     (if isManualInput s \<and> \<not> feedbackGiven s then ManualEntryForm
      else if length (predictions s) > 0 then DetectedSignal
      else ReadyPlaceholder)"

subsection \<open>Appending several events in sequence\<close>

text \<open>
  A run of appends, oldest first, each with its own clock value, labels and kind; and the
  entry that one append creates.
\<close>

type_synonym append_call = "int \<times> string \<times> string \<times> FeedbackType"

definition entryOf :: "append_call \<Rightarrow> FeedbackHistory" where
  "entryOf call =
     (case call of (now, original, corrected, type) \<Rightarrow>
        \<lparr>timestamp = now, originalLabel = original, correctedLabel = corrected, ftype = type\<rparr>)"

fun appendInSequence :: "append_call list \<Rightarrow> app \<Rightarrow> app" where
  "appendInSequence [] s = s"
| "appendInSequence ((now, original, corrected, type) # rest) s =
     appendInSequence rest (addFeedbackToLog now original corrected type s)"

subsection \<open>Concrete states and generators for the examples\<close>

definition emptyStorage :: storage where
  "emptyStorage = \<lparr>tm_model_url = None, tm_feedback_history = None\<rparr>"

definition idleNet :: net where
  "idleNet = \<lparr>events = []\<rparr>"

definition readyApp :: app where
  "readyApp = (mount emptyStorage idleNet)\<lparr>status := READY, modelRef := True\<rparr>"

definition photo :: HTMLImageElement where
  "photo = \<lparr>naturalWidth = 300, naturalHeight = 200\<rparr>"

definition photoApp :: app where
  "photoApp =
     readyApp\<lparr>targetImage := Some ''photo.png'',
              imagePreview := Some ''data:image/png;base64,iVBORw0KGgo='',
              imageElementRef := Some photo\<rparr>"

definition catDogFish :: "Prediction list" where
  "catDogFish =
     [\<lparr>className = ''cat'', probability = 0.9\<rparr>,
      \<lparr>className = ''dog'', probability = 0.06\<rparr>,
      \<lparr>className = ''fish'', probability = 0.01\<rparr>]"

definition answering :: "string \<Rightarrow> generator" where
  "answering reply = (\<lambda>request n. Inr \<lparr>text' = Some reply\<rparr>)"

definition rateLimited :: ApiError where
  "rateLimited = \<lparr>message = None, status_code = Some 429\<rparr>"

definition exhausted :: ApiError where
  "exhausted = \<lparr>message = Some ''quota: RESOURCE_EXHAUSTED'', status_code = None\<rparr>"

definition badRequest :: ApiError where
  "badRequest = \<lparr>message = Some ''INVALID_ARGUMENT'', status_code = Some 400\<rparr>"

definition bookApp :: app where
  "bookApp = readyApp\<lparr>predictions := [\<lparr>className = ''Book'', probability = 0.93\<rparr>]\<rparr>"

definition unnamedApp :: app where
  "unnamedApp = readyApp\<lparr>predictions := [\<lparr>className = [], probability = 0.9\<rparr>]\<rparr>"

definition reviewApp :: app where
  "reviewApp =
     readyApp\<lparr>predictions := catDogFish, predictionIndex := 1,
              insight := Some ''Dogs bark.'',
              videoRef := Some \<lparr>videoWidth = 0, videoHeight = 0\<rparr>\<rparr>"

definition blankEntryApp :: app where
  "blankEntryApp =
     bookApp\<lparr>isManualInput := True, manualValue := [CHR '' '', CHR 0x09, CHR '' '']\<rparr>"

definition paddedEntryApp :: app where
  "paddedEntryApp = bookApp\<lparr>isManualInput := True, manualValue := '' Novel ''\<rparr>"

definition failedApp :: app where
  "failedApp = photoApp\<lparr>status := ERROR, error := Some ''Analysis engine error.''\<rparr>"

section \<open>The example states\<close>

lemma readyApp_eq:
  "readyApp =
     \<lparr>modelUrl = DEFAULT_MODEL_URL, showSettings = False, status = READY, predictions = [],
      error = None, insight = None, isInsightLoading = False, inputSource = DRIVE,
      targetImage = None, imagePreview = None, shouldFlip = False, isCameraActive = False,
      predictionIndex = 0, isManualInput = False, manualValue = [], feedbackGiven = False,
      feedbackResponse = None, feedbackHistory = [], modelRef = True, imageElementRef = None,
      videoRef = None, processingCanvasRef = Some fresh_canvas, streamRef = False,
      localStorage = \<lparr>tm_model_url = None, tm_feedback_history = Some []\<rparr>,
      network = idleNet, timers = [], inFlight = []\<rparr>"
  by (simp add: readyApp_def mount_def emptyStorage_def Let_def)


section \<open>Ranking is a stable descending sort\<close>

lemma length_js_insert: "length (js_insert cmp x ys) = Suc (length ys)"
  by (induction ys) simp_all

lemma mset_js_insert: "mset (js_insert cmp x ys) = add_mset x (mset ys)"
  by (induction ys) simp_all

lemma set_js_insert: "set (js_insert cmp x ys) = insert x (set ys)"
  by (induction ys) auto

lemma descending_js_insert:
  "descending ys \<Longrightarrow> descending (js_insert byProbabilityDesc x ys)"
proof (induction ys)
  case Nil
  show ?case by simp
next
  case (Cons y ys)
  show ?case
  proof (cases "byProbabilityDesc y x > 0")
    case True
    then have "probability y < probability x" by (simp add: byProbabilityDesc_def)
    with Cons.prems True show ?thesis by fastforce
  next
    case False
    then have "probability x \<le> probability y" by (simp add: byProbabilityDesc_def)
    with Cons False show ?thesis by (auto simp: set_js_insert)
  qed
qed

lemma filter_js_insert:
  "descending ys \<Longrightarrow>
   filter (\<lambda>y. probability y = p) (js_insert byProbabilityDesc x ys) =
   filter (\<lambda>y. probability y = p) ys @ (if probability x = p then [x] else [])"
proof (induction ys)
  case Nil
  show ?case by simp
next
  case (Cons y ys)
  show ?case
  proof (cases "byProbabilityDesc y x > 0")
    case True
    then have lt: "probability y < probability x" by (simp add: byProbabilityDesc_def)
    have "\<forall>z \<in> set (y # ys). probability z < probability x"
      using Cons.prems lt by fastforce
    then have "probability x = p \<Longrightarrow> filter (\<lambda>y. probability y = p) (y # ys) = []"
      by (auto simp: filter_empty_conv)
    with True show ?thesis by (cases "probability x = p") simp_all
  next
    case False
    with Cons show ?thesis by simp
  qed
qed

lemma js_sort_from_props:
  "descending acc \<Longrightarrow>
   descending (js_sort_from byProbabilityDesc acc xs) \<and>
   filter (\<lambda>y. probability y = p) (js_sort_from byProbabilityDesc acc xs) =
     filter (\<lambda>y. probability y = p) acc @ filter (\<lambda>y. probability y = p) xs"
proof (induction xs arbitrary: acc)
  case Nil
  then show ?case by simp
next
  case (Cons x xs)
  from Cons.prems have d: "descending (js_insert byProbabilityDesc x acc)"
    by (rule descending_js_insert)
  from Cons.IH [OF d] Cons.prems show ?case
    by (simp add: filter_js_insert)
qed

lemma length_js_sort_from: "length (js_sort_from cmp acc xs) = length acc + length xs"
  by (induction xs arbitrary: acc) (simp_all add: length_js_insert)

lemma mset_js_sort_from: "mset (js_sort_from cmp acc xs) = mset acc + mset xs"
  by (induction xs arbitrary: acc) (simp_all add: mset_js_insert)

text \<open>
  Claim C1. For every raw prediction list, the ranked list has the same length and the
  same elements (nothing is dropped), is sorted by descending probability, and keeps
  predictions of equal probability in the order in which the classifier emitted them.
\<close>

theorem rank_sorted_stable:
  "length (sortedResults rs) = length rs \<and>
   mset (sortedResults rs) = mset rs \<and>
   sorted_wrt (\<lambda>a b. probability a \<ge> probability b) (sortedResults rs) \<and>
   (\<forall>p. filter (\<lambda>x. probability x = p) (sortedResults rs) = filter (\<lambda>x. probability x = p) rs)"
  using js_sort_from_props [of "[]" rs]
  by (simp add: sortedResults_def js_sort_def length_js_sort_from mset_js_sort_from)

section \<open>Retry with exponential backoff\<close>

lemma startsWith_iff: "startsWith s n \<longleftrightarrow> (\<exists>post. s = n @ post)"
  by (induction s n rule: startsWith.induct) auto

lemma str_includes_iff: "str_includes s n \<longleftrightarrow> (\<exists>pre post. s = pre @ n @ post)"
proof (induction s)
  case Nil
  show ?case by auto
next
  case (Cons c cs)
  show ?case
  proof
    assume "str_includes (c # cs) n"
    then consider "startsWith (c # cs) n" | "str_includes cs n" by auto
    then show "\<exists>pre post. c # cs = pre @ n @ post"
    proof cases
      case 1
      then obtain post where "c # cs = n @ post" by (auto simp: startsWith_iff)
      then have "c # cs = [] @ n @ post" by simp
      then show ?thesis by blast
    next
      case 2
      then obtain pre post where "cs = pre @ n @ post" using Cons.IH by auto
      then have "c # cs = (c # pre) @ n @ post" by simp
      then show ?thesis by blast
    qed
  next
    assume "\<exists>pre post. c # cs = pre @ n @ post"
    then obtain pre post where eq: "c # cs = pre @ n @ post" by blast
    show "str_includes (c # cs) n"
    proof (cases pre)
      case Nil
      with eq have "startsWith (c # cs) n" by (auto simp: startsWith_iff)
      then show ?thesis by simp
    next
      case (Cons p ps)
      with eq have "cs = ps @ n @ post" by simp
      then have "str_includes cs n" using Cons.IH by blast
      then show ?thesis by simp
    qed
  qed
qed

lemma isRateLimit_iff:
  "isRateLimit e \<longleftrightarrow>
     (status_code e = Some 429 \<or> (\<exists>m pre post. message e = Some m \<and> m = pre @ ''RESOURCE_EXHAUSTED'' @ post))"
  by (cases "message e") (auto simp: isRateLimit_def str_includes_iff)

lemma calls_after_Call: "calls (w\<lparr>events := events w @ [Call]\<rparr>) = Suc (calls w)"
  by (simp add: calls_def)

lemma calls_after_Sleep: "calls (w\<lparr>events := events w @ [Call, Sleep d]\<rparr>) = Suc (calls w)"
  by (simp add: calls_def)

lemma callWithRetry_success:
  "fn (calls w) = Inr v \<Longrightarrow>
   callWithRetry fn retries d w = (Inr v, w\<lparr>events := events w @ [Call]\<rparr>)"
  by (subst callWithRetry.simps) (simp add: invoke_def)

lemma callWithRetry_retry:
  "fn (calls w) = Inl e \<Longrightarrow> 0 < retries \<Longrightarrow> isRateLimit e \<Longrightarrow>
   callWithRetry fn retries d w =
   callWithRetry fn (retries - 1) (d * 2) (w\<lparr>events := events w @ [Call, Sleep d]\<rparr>)"
  by (subst callWithRetry.simps) (simp add: invoke_def sleep_def)

lemma callWithRetry_giveup:
  "fn (calls w) = Inl e \<Longrightarrow> \<not> (0 < retries \<and> isRateLimit e) \<Longrightarrow>
   callWithRetry fn retries d w = (Inl e, w\<lparr>events := events w @ [Call]\<rparr>)"
  by (subst callWithRetry.simps) (auto simp add: invoke_def)

lemma upt_Suc_shift: "[0..<Suc k] = 0 # map Suc [0..<k]"
  by (simp add: upt_conv_Cons map_Suc_upt del: upt_Suc)

lemma backoff_0: "backoff d 0 = []"
  by (simp add: backoff_def)

lemma backoff_Suc: "backoff d (Suc k) = d # backoff (d * 2) k"
  by (simp add: backoff_def upt_Suc_shift comp_def mult.assoc del: upt_Suc)

lemma retry_trace_0: "retry_trace d 0 = [Call]"
  by (simp add: retry_trace_def)

lemma retry_trace_Suc: "retry_trace d (Suc k) = Call # Sleep d # retry_trace (d * 2) k"
  by (simp add: retry_trace_def upt_Suc_shift comp_def mult.assoc del: upt_Suc)

lemma calls_retry_trace: "length (filter (\<lambda>ev. ev = Call) (retry_trace d k)) = Suc k"
  by (induction k arbitrary: d) (simp_all add: retry_trace_0 retry_trace_Suc)

lemma waits_retry_trace: "concat (map delay_of (retry_trace d k)) = backoff d k"
  by (induction k arbitrary: d) (simp_all add: retry_trace_0 retry_trace_Suc backoff_0 backoff_Suc)

lemma callWithRetry_run:
  assumes "\<forall>i<k. \<exists>e. fn (calls w + i) = Inl e \<and> isRateLimit e"
    and "k \<le> nat retries"
    and "case fn (calls w + k) of Inr v \<Rightarrow> True | Inl e \<Rightarrow> \<not> (int k < retries \<and> isRateLimit e)"
  shows "callWithRetry fn retries d w =
           (fn (calls w + k), w\<lparr>events := events w @ retry_trace d k\<rparr>)"
  using assms
proof (induction k arbitrary: w retries d)
  case 0
  show ?case
  proof (cases "fn (calls w)")
    case (Inl e)
    with "0.prems" have "\<not> (0 < retries \<and> isRateLimit e)" by simp
    with Inl show ?thesis by (simp add: callWithRetry_giveup retry_trace_0)
  next
    case (Inr v)
    then show ?thesis by (simp add: callWithRetry_success retry_trace_0)
  qed
next
  case (Suc k)
  from Suc.prems(1) obtain e where e: "fn (calls w) = Inl e" "isRateLimit e" by force
  from Suc.prems(2) have pos: "0 < retries" by simp
  let ?w = "w\<lparr>events := events w @ [Call, Sleep d]\<rparr>"
  have step: "callWithRetry fn retries d w = callWithRetry fn (retries - 1) (d * 2) ?w"
    using e(1) pos e(2) by (rule callWithRetry_retry)
  have c: "calls ?w = Suc (calls w)" by (rule calls_after_Sleep)
  have h1: "\<forall>i<k. \<exists>e. fn (calls ?w + i) = Inl e \<and> isRateLimit e"
  proof (intro allI impI)
    fix i assume "i < k"
    then have "Suc i < Suc k" by simp
    with Suc.prems(1) have "\<exists>e. fn (calls w + Suc i) = Inl e \<and> isRateLimit e" by blast
    then show "\<exists>e. fn (calls ?w + i) = Inl e \<and> isRateLimit e" by (simp add: c)
  qed
  have h2: "k \<le> nat (retries - 1)" using Suc.prems(2) by simp
  have h3: "case fn (calls ?w + k) of Inr v \<Rightarrow> True | Inl e \<Rightarrow> \<not> (int k < retries - 1 \<and> isRateLimit e)"
    using Suc.prems(3) by (auto simp: c split: sum.splits)
  show ?case
    unfolding step Suc.IH [OF h1 h2 h3] by (simp add: retry_trace_Suc c)
qed

text \<open>
  Claim C3. Let the first \<open>k\<close> calls fail with a rate-limit error (status 429, or a
  message that contains \<open>RESOURCE_EXHAUSTED\<close>) while attempts remain, and let the next
  call succeed, fail with another error, or fail when no attempt remains. Then the run
  of \<open>callWithRetry\<close> is, in this order: a call, a sleep of \<open>d\<close>, a call, a sleep of
  \<open>2 d\<close>, and so on, each retry coming after the sleep of the current delay, \<open>k + 1\<close>
  calls and \<open>k\<close> sleeps in all; and it returns what the last call returned, the success
  value or the last error. With 3 retries from 2000 ms the run is call, 2000, call, 4000,
  call, 8000, call; an error that is no rate limit is the case \<open>k = 0\<close>, one call and no
  sleep.
\<close>

theorem callWithRetry_backoff:
  assumes "\<forall>i<k. \<exists>e. fn (calls w + i) = Inl e \<and> isRateLimit e"
    and "k \<le> nat retries"
    and "case fn (calls w + k) of Inr v \<Rightarrow> True | Inl e \<Rightarrow> \<not> (int k < retries \<and> isRateLimit e)"
  shows "callWithRetry fn retries d w =
           (fn (calls w + k), w\<lparr>events := events w @ retry_trace d k\<rparr>)
         \<and> calls (snd (callWithRetry fn retries d w)) = calls w + k + 1
         \<and> waits (snd (callWithRetry fn retries d w)) = waits w @ backoff d k
         \<and> (d = 2000 \<and> k = 3 \<longrightarrow>
              retry_trace d k = [Call, Sleep 2000, Call, Sleep 4000, Call, Sleep 8000, Call]
              \<and> backoff d k = [2000, 4000, 8000])
         \<and> (isRateLimit err \<longleftrightarrow>
              status_code err = Some 429
              \<or> (\<exists>m pre post. message err = Some m \<and> m = pre @ ''RESOURCE_EXHAUSTED'' @ post))"
proof (intro conjI)
  show run: "callWithRetry fn retries d w =
          (fn (calls w + k), w\<lparr>events := events w @ retry_trace d k\<rparr>)"
    using assms by (rule callWithRetry_run)
  show "calls (snd (callWithRetry fn retries d w)) = calls w + k + 1"
    unfolding run by (simp add: calls_def calls_retry_trace)
  show "waits (snd (callWithRetry fn retries d w)) = waits w @ backoff d k"
    unfolding run by (simp add: waits_def waits_retry_trace)
  show "d = 2000 \<and> k = 3 \<longrightarrow>
          retry_trace d k = [Call, Sleep 2000, Call, Sleep 4000, Call, Sleep 8000, Call]
          \<and> backoff d k = [2000, 4000, 8000]"
    by (simp add: backoff_def retry_trace_def numeral_3_eq_3)
  show "isRateLimit err \<longleftrightarrow>
          status_code err = Some 429
          \<or> (\<exists>m pre post. message err = Some m \<and> m = pre @ ''RESOURCE_EXHAUSTED'' @ post)"
    by (rule isRateLimit_iff)
qed

lemma all_less_3: "(\<forall>i<3. P (i::nat)) \<longleftrightarrow> P 0 \<and> P (Suc 0) \<and> P (Suc (Suc 0))"
  by (auto simp: numeral_3_eq_3 less_Suc_eq)

lemma isRateLimit_examples:
  "isRateLimit rateLimited" "isRateLimit exhausted" "\<not> isRateLimit badRequest"
  by (simp_all add: isRateLimit_def rateLimited_def exhausted_def badRequest_def)

lemma calls_idleNet: "calls idleNet = 0"
  by (simp add: calls_def idleNet_def)

lemma events_idleNet: "idleNet\<lparr>events := events idleNet @ evs\<rparr> = \<lparr>events = evs\<rparr>"
  by (simp add: idleNet_def)

lemma retry_trace_3: "retry_trace 2000 3 = [Call, Sleep 2000, Call, Sleep 4000, Call, Sleep 8000, Call]"
  by (simp add: retry_trace_def numeral_3_eq_3)

theorem callWithRetry_backoff_witness:
  "callWithRetry (\<lambda>n. if n < 3 then Inl rateLimited else Inr (42::nat)) 3 2000 idleNet =
     (Inr 42, \<lparr>events = [Call, Sleep 2000, Call, Sleep 4000, Call, Sleep 8000, Call]\<rparr>)
   \<and> callWithRetry (\<lambda>n. Inl badRequest :: ApiError + nat) 3 2000 idleNet =
     (Inl badRequest, \<lparr>events = [Call]\<rparr>)
   \<and> callWithRetry (\<lambda>n. Inl (if n = 3 then exhausted else rateLimited) :: ApiError + nat) 3 2000 idleNet =
     (Inl exhausted, \<lparr>events = [Call, Sleep 2000, Call, Sleep 4000, Call, Sleep 8000, Call]\<rparr>)"
proof -
  have a: "callWithRetry (\<lambda>n. if n < 3 then Inl rateLimited else Inr (42::nat)) 3 2000 idleNet =
             (Inr 42, \<lparr>events = [Call, Sleep 2000, Call, Sleep 4000, Call, Sleep 8000, Call]\<rparr>)"
    using callWithRetry_backoff [of 3 "\<lambda>n. if n < 3 then Inl rateLimited else Inr (42::nat)" idleNet 3 2000]
    by (simp add: all_less_3 isRateLimit_examples calls_idleNet retry_trace_3 events_idleNet)
  have b: "callWithRetry (\<lambda>n. Inl badRequest :: ApiError + nat) 3 2000 idleNet =
             (Inl badRequest, \<lparr>events = [Call]\<rparr>)"
    using callWithRetry_backoff [of 0 "\<lambda>n. Inl badRequest :: ApiError + nat" idleNet 3 2000]
    by (simp add: isRateLimit_examples calls_idleNet retry_trace_0 events_idleNet)
  have c: "callWithRetry (\<lambda>n. Inl (if n = 3 then exhausted else rateLimited) :: ApiError + nat) 3 2000 idleNet =
             (Inl exhausted, \<lparr>events = [Call, Sleep 2000, Call, Sleep 4000, Call, Sleep 8000, Call]\<rparr>)"
    using callWithRetry_backoff [of 3 "\<lambda>n. Inl (if n = 3 then exhausted else rateLimited) :: ApiError + nat" idleNet 3 2000]
    by (simp add: all_less_3 isRateLimit_examples calls_idleNet retry_trace_3 events_idleNet)
  from a b c show ?thesis by blast
qed

section \<open>The insight and acknowledgement fetches never throw\<close>

lemma getInsightForClass_eq:
  "getInsightForClass g label w =
     (case callWithRetry (g (insightRequest label)) 3 2000 w of
        (Inr response, w1) \<Rightarrow> (Inr (text' response), w1)
      | (Inl e, w1) \<Rightarrow> (Inr (Some insightFallback), w1))"
  by (simp add: getInsightForClass_def try_catch_def split: prod.splits sum.splits)

lemma processFeedback_eq:
  "processFeedback g label isCorrect w =
     (case callWithRetry (g (feedbackRequest label isCorrect)) 3 2000 w of
        (Inr response, w1) \<Rightarrow> (Inr (text' response), w1)
      | (Inl e, w1) \<Rightarrow> (Inr (Some (feedbackFallback isCorrect)), w1))"
  by (simp add: processFeedback_def try_catch_def split: prod.splits sum.splits)

lemma getInsightForClass_total: "\<exists>t w1. getInsightForClass g label w = (Inr t, w1)"
  by (simp add: getInsightForClass_eq split: prod.splits sum.splits)

lemma processFeedback_total: "\<exists>t w1. processFeedback g label isCorrect w = (Inr t, w1)"
  by (simp add: processFeedback_eq split: prod.splits sum.splits)

text \<open>
  Claim C4. For every label, generator and network state, \<open>getInsightForClass\<close> and
  \<open>processFeedback\<close> resolve (the result is never a thrown error); and whenever the
  retried call fails, be it at once or after the last retry, the result is the fixed
  fallback text (for the acknowledgement, the one that belongs to \<open>isCorrect\<close>).
\<close>

theorem fetches_never_throw:
  "(\<exists>t w1. getInsightForClass g label w = (Inr t, w1))
   \<and> (\<exists>t w1. processFeedback g label isCorrect w = (Inr t, w1))
   \<and> (\<forall>e w1. callWithRetry (g (insightRequest label)) 3 2000 w = (Inl e, w1) \<longrightarrow>
         getInsightForClass g label w =
           (Inr (Some ''The model has high confidence in this identification. What else can you show it?''), w1))
   \<and> (\<forall>e w1. callWithRetry (g (feedbackRequest label isCorrect)) 3 2000 w = (Inl e, w1) \<longrightarrow>
         processFeedback g label isCorrect w =
           (Inr (Some (if isCorrect then ''Glad to hear it! Analysis confirmed.''
                       else ''Understood. Feedback logged for model refinement.'')), w1))"
proof (intro conjI allI impI)
  show "\<exists>t w1. getInsightForClass g label w = (Inr t, w1)"
    by (rule getInsightForClass_total)
  show "\<exists>t w1. processFeedback g label isCorrect w = (Inr t, w1)"
    by (rule processFeedback_total)
next
  fix e w1
  assume "callWithRetry (g (insightRequest label)) 3 2000 w = (Inl e, w1)"
  then show "getInsightForClass g label w =
      (Inr (Some ''The model has high confidence in this identification. What else can you show it?''), w1)"
    by (simp add: getInsightForClass_eq insightFallback_def)
next
  fix e w1
  assume "callWithRetry (g (feedbackRequest label isCorrect)) 3 2000 w = (Inl e, w1)"
  then show "processFeedback g label isCorrect w =
      (Inr (Some (if isCorrect then ''Glad to hear it! Analysis confirmed.''
                  else ''Understood. Feedback logged for model refinement.'')), w1)"
    by (simp add: processFeedback_eq feedbackFallback_def)
qed

lemma always_rateLimited:
  "callWithRetry (\<lambda>n. Inl rateLimited :: ApiError + 'a) 3 2000 idleNet =
     (Inl rateLimited, \<lparr>events = [Call, Sleep 2000, Call, Sleep 4000, Call, Sleep 8000, Call]\<rparr>)"
  using callWithRetry_run [of 3 "\<lambda>n. Inl rateLimited :: ApiError + 'a" idleNet 3 2000]
  by (simp add: isRateLimit_examples calls_idleNet retry_trace_3 events_idleNet)

lemma always_badRequest:
  "callWithRetry (\<lambda>n. Inl badRequest :: ApiError + 'a) 3 2000 idleNet =
     (Inl badRequest, \<lparr>events = [Call]\<rparr>)"
  using callWithRetry_run [of 0 "\<lambda>n. Inl badRequest :: ApiError + 'a" idleNet 3 2000]
  by (simp add: isRateLimit_examples calls_idleNet retry_trace_0 events_idleNet)

theorem fetches_never_throw_witness:
  "getInsightForClass (\<lambda>request n. Inl rateLimited) ''cat'' idleNet =
     (Inr (Some ''The model has high confidence in this identification. What else can you show it?''),
      \<lparr>events = [Call, Sleep 2000, Call, Sleep 4000, Call, Sleep 8000, Call]\<rparr>)
   \<and> processFeedback (\<lambda>request n. Inl badRequest) ''cat'' True idleNet =
     (Inr (Some ''Glad to hear it! Analysis confirmed.''), \<lparr>events = [Call]\<rparr>)"
  using fetches_never_throw [of "\<lambda>request n. Inl rateLimited" "''cat''" idleNet True]
        fetches_never_throw [of "\<lambda>request n. Inl badRequest" "''cat''" idleNet True]
  by (simp add: always_rateLimited always_badRequest)

section \<open>Rejecting a candidate\<close>

lemma handleWrongFeedback_advance:
  assumes "predictionIndex s = 0" "1 < length (predictions s)"
    "0.05 < probability (predictions s ! 1)"
  shows "\<exists>t w1. handleWrongFeedback g s =
           s\<lparr>predictionIndex := 1, insight := t, isInsightLoading := False, network := w1\<rparr>"
proof -
  obtain t w1 where
    "getInsightForClass g (className (predictions s ! 1))
       (network (s\<lparr>predictionIndex := 1, insight := None, isInsightLoading := True\<rparr>)) = (Inr t, w1)"
    using getInsightForClass_total by blast
  with assms have "handleWrongFeedback g s =
      s\<lparr>predictionIndex := 1, insight := t, isInsightLoading := False, network := w1\<rparr>"
    by (simp add: handleWrongFeedback_def)
  then show ?thesis by blast
qed

lemma handleWrongFeedback_manual:
  assumes "\<not> (predictionIndex s = 0 \<and> 1 < length (predictions s)
              \<and> 0.05 < probability (predictions s ! 1))"
  shows "handleWrongFeedback g s = s\<lparr>isManualInput := True\<rparr>"
  unfolding handleWrongFeedback_def using assms by (rule if_not_P)

text \<open>
  Claim C2. Rejecting moves the cursor to 1, and leaves the manual-entry flag as it was,
  when the cursor is 0, a second prediction exists and its probability is above 0.05; in
  every other case the only change is that manual entry is switched on (the cursor does
  not move). From the review panel this shows the second candidate in the first case and
  the manual-entry form in the second. For cat 0.9, dog 0.06, fish 0.01 the rejection at
  cursor 0 puts dog under the cursor, and the rejection at cursor 1 goes to manual entry.
\<close>

theorem reject_cascade:
  "(predictionIndex s = 0 \<and> 1 < length (predictions s) \<and> 0.05 < probability (predictions s ! 1) \<longrightarrow>
      predictionIndex (handleWrongFeedback g s) = 1
      \<and> isManualInput (handleWrongFeedback g s) = isManualInput s
      \<and> feedbackGiven (handleWrongFeedback g s) = feedbackGiven s
      \<and> predictions (handleWrongFeedback g s) = predictions s
      \<and> (resultArea s = DetectedSignal \<longrightarrow> resultArea (handleWrongFeedback g s) = DetectedSignal))
   \<and> (\<not> (predictionIndex s = 0 \<and> 1 < length (predictions s) \<and> 0.05 < probability (predictions s ! 1)) \<longrightarrow>
      handleWrongFeedback g s = s\<lparr>isManualInput := True\<rparr>
      \<and> (\<not> feedbackGiven s \<longrightarrow> resultArea (handleWrongFeedback g s) = ManualEntryForm))
   \<and> (predictions s =
         [\<lparr>className = ''cat'', probability = 0.9\<rparr>,
          \<lparr>className = ''dog'', probability = 0.06\<rparr>,
          \<lparr>className = ''fish'', probability = 0.01\<rparr>] \<longrightarrow>
       (predictionIndex s = 0 \<longrightarrow>
          predictionIndex (handleWrongFeedback g s) = 1
          \<and> predictions (handleWrongFeedback g s) ! predictionIndex (handleWrongFeedback g s) =
              \<lparr>className = ''dog'', probability = 0.06\<rparr>
          \<and> isManualInput (handleWrongFeedback g s) = isManualInput s)
       \<and> (predictionIndex s = 1 \<longrightarrow> handleWrongFeedback g s = s\<lparr>isManualInput := True\<rparr>))"
proof (intro conjI impI)
  assume c: "predictionIndex s = 0 \<and> 1 < length (predictions s) \<and> 0.05 < probability (predictions s ! 1)"
  then obtain t w1 where eq: "handleWrongFeedback g s =
      s\<lparr>predictionIndex := 1, insight := t, isInsightLoading := False, network := w1\<rparr>"
    using handleWrongFeedback_advance [of s g] by blast
  show "predictionIndex (handleWrongFeedback g s) = 1" by (simp add: eq)
  show "isManualInput (handleWrongFeedback g s) = isManualInput s" by (simp add: eq)
  show "feedbackGiven (handleWrongFeedback g s) = feedbackGiven s" by (simp add: eq)
  show "predictions (handleWrongFeedback g s) = predictions s" by (simp add: eq)
  assume "resultArea s = DetectedSignal"
  then show "resultArea (handleWrongFeedback g s) = DetectedSignal"
    by (simp add: eq resultArea_def split: if_splits)
next
  assume n: "\<not> (predictionIndex s = 0 \<and> 1 < length (predictions s) \<and> 0.05 < probability (predictions s ! 1))"
  then show m: "handleWrongFeedback g s = s\<lparr>isManualInput := True\<rparr>"
    by (rule handleWrongFeedback_manual)
  assume "\<not> feedbackGiven s"
  then show "resultArea (handleWrongFeedback g s) = ManualEntryForm"
    by (simp add: m resultArea_def)
next
  assume p: "predictions s =
         [\<lparr>className = ''cat'', probability = 0.9\<rparr>,
          \<lparr>className = ''dog'', probability = 0.06\<rparr>,
          \<lparr>className = ''fish'', probability = 0.01\<rparr>]"
  {
    assume i: "predictionIndex s = 0"
    with p obtain t w1 where eq: "handleWrongFeedback g s =
        s\<lparr>predictionIndex := 1, insight := t, isInsightLoading := False, network := w1\<rparr>"
      using handleWrongFeedback_advance [of s g] by auto
    show "predictionIndex (handleWrongFeedback g s) = 1" by (simp add: eq)
    show "predictions (handleWrongFeedback g s) ! predictionIndex (handleWrongFeedback g s) =
            \<lparr>className = ''dog'', probability = 0.06\<rparr>"
      by (simp add: eq p)
    show "isManualInput (handleWrongFeedback g s) = isManualInput s" by (simp add: eq)
  }
  assume "predictionIndex s = 1"
  then show "handleWrongFeedback g s = s\<lparr>isManualInput := True\<rparr>"
    by (simp add: handleWrongFeedback_manual)
qed

theorem reject_cascade_witness:
  "predictionIndex (handleWrongFeedback (answering ''Dogs bark.'') (readyApp\<lparr>predictions := catDogFish\<rparr>)) = 1
   \<and> predictions (handleWrongFeedback (answering ''Dogs bark.'') (readyApp\<lparr>predictions := catDogFish\<rparr>)) ! 1 =
       \<lparr>className = ''dog'', probability = 0.06\<rparr>
   \<and> isManualInput (handleWrongFeedback (answering ''Dogs bark.'') (readyApp\<lparr>predictions := catDogFish\<rparr>)) = False
   \<and> resultArea (handleWrongFeedback (answering ''Dogs bark.'') (readyApp\<lparr>predictions := catDogFish\<rparr>)) = DetectedSignal
   \<and> handleWrongFeedback (answering ''Dogs bark.'') (readyApp\<lparr>predictions := catDogFish, predictionIndex := 1\<rparr>) =
       readyApp\<lparr>predictions := catDogFish, predictionIndex := 1, isManualInput := True\<rparr>
   \<and> resultArea (handleWrongFeedback (answering ''Dogs bark.'') (readyApp\<lparr>predictions := catDogFish, predictionIndex := 1\<rparr>)) =
       ManualEntryForm"
  using reject_cascade [of "readyApp\<lparr>predictions := catDogFish\<rparr>" "answering ''Dogs bark.''"]
        reject_cascade [of "readyApp\<lparr>predictions := catDogFish, predictionIndex := 1\<rparr>" "answering ''Dogs bark.''"]
  by (simp add: readyApp_eq catDogFish_def resultArea_def)

section \<open>Frame normalisation\<close>

lemma getProcessedCanvas_None_iff:
  assumes "pick_source s = (source, sw, sh)"
  shows "fst (getProcessedCanvas s) = None \<longleftrightarrow>
           processingCanvasRef s = None
           \<or> (\<exists>canvas. processingCanvasRef s = Some canvas \<and> \<not> context2d canvas)
           \<or> source = None \<or> sw = 0 \<or> sh = 0"
  using assms
  by (cases "processingCanvasRef s"; cases source)
     (auto simp: getProcessedCanvas_def Let_def)

lemma getProcessedCanvas_Some:
  assumes "pick_source s = (Some src, sw, sh)" "processingCanvasRef s = Some canvas"
    "context2d canvas" "sw \<noteq> 0" "sh \<noteq> 0"
  shows "getProcessedCanvas s =
           (Some (canvas\<lparr>width := 224, height := 224,
                     transform := (if shouldFlip s then (- 1, 0, 0, 1, 224, 0) else identity),
                     painted :=
                       [(identity, ClearRect 0 0 224 224),
                        (if shouldFlip s then (- 1, 0, 0, 1, 224, 0) else identity,
                         DrawImage src ((real sw - real (min sw sh)) / 2)
                           ((real sh - real (min sw sh)) / 2)
                           (real (min sw sh)) (real (min sw sh)) 0 0 224 224)]\<rparr>),
            s\<lparr>processingCanvasRef :=
                Some (canvas\<lparr>width := 224, height := 224,
                     transform := (if shouldFlip s then (- 1, 0, 0, 1, 224, 0) else identity),
                     painted :=
                       [(identity, ClearRect 0 0 224 224),
                        (if shouldFlip s then (- 1, 0, 0, 1, 224, 0) else identity,
                         DrawImage src ((real sw - real (min sw sh)) / 2)
                           ((real sh - real (min sw sh)) / 2)
                           (real (min sw sh)) (real (min sw sh)) 0 0 224 224)]\<rparr>)\<rparr>)"
  using assms
  by (simp add: getProcessedCanvas_def Let_def set_width_def set_height_def ctx_clearRect_def
      ctx_translate_def ctx_scale_def ctx_drawImage_def identity_def)

text \<open>
  Claim C5, as amended. \<open>getProcessedCanvas\<close> returns \<open>null\<close> exactly when the scratch
  canvas is not mounted, or it yields no 2D context, or no source is mounted, or the
  source has width 0 or height 0. Otherwise it returns the scratch canvas, 224 by 224,
  cleared and then painted with the centred square of side \<open>min sw sh\<close>, taken at
  \<open>((sw - size) / 2, (sh - size) / 2)\<close>, scaled to the whole canvas; with the mirror
  flag the drawing is made under the transformation that sends \<open>(x, y)\<close> to
  \<open>(224 - x, y)\<close>. For a 300 by 200 source the square has side 200 and starts at (50, 0).
\<close>

theorem getProcessedCanvas_normalizes:
  assumes "pick_source s = (source, sw, sh)"
  shows "(fst (getProcessedCanvas s) = None \<longleftrightarrow>
            processingCanvasRef s = None
            \<or> (\<exists>canvas. processingCanvasRef s = Some canvas \<and> \<not> context2d canvas)
            \<or> source = None \<or> sw = 0 \<or> sh = 0)
         \<and> (\<forall>canvas src. processingCanvasRef s = Some canvas \<and> context2d canvas
               \<and> source = Some src \<and> sw \<noteq> 0 \<and> sh \<noteq> 0 \<longrightarrow>
               (\<exists>out. getProcessedCanvas s = (Some out, s\<lparr>processingCanvasRef := Some out\<rparr>)
                  \<and> width out = 224 \<and> height out = 224
                  \<and> painted out =
                      [(identity, ClearRect 0 0 224 224),
                       (if shouldFlip s then (- 1, 0, 0, 1, 224, 0) else identity,
                        DrawImage src ((real sw - real (min sw sh)) / 2)
                          ((real sh - real (min sw sh)) / 2)
                          (real (min sw sh)) (real (min sw sh)) 0 0 224 224)]
                  \<and> (sw = 300 \<and> sh = 200 \<longrightarrow>
                        snd (last (painted out)) = DrawImage src 50 0 200 200 0 0 224 224)))
         \<and> apply_matrix (- 1, 0, 0, 1, 224, 0) (x, y) = (224 - x, y)
         \<and> apply_matrix identity (x, y) = (x, y)"
proof (intro conjI allI impI)
  show "fst (getProcessedCanvas s) = None \<longleftrightarrow>
          processingCanvasRef s = None
          \<or> (\<exists>canvas. processingCanvasRef s = Some canvas \<and> \<not> context2d canvas)
          \<or> source = None \<or> sw = 0 \<or> sh = 0"
    using assms by (rule getProcessedCanvas_None_iff)
next
  fix canvas src
  assume h: "processingCanvasRef s = Some canvas \<and> context2d canvas
               \<and> source = Some src \<and> sw \<noteq> 0 \<and> sh \<noteq> 0"
  let ?m = "if shouldFlip s then (- 1, 0, 0, 1, 224, 0) else identity"
  let ?out = "canvas\<lparr>width := 224, height := 224, transform := ?m,
                 painted :=
                   [(identity, ClearRect 0 0 224 224),
                    (?m, DrawImage src ((real sw - real (min sw sh)) / 2)
                           ((real sh - real (min sw sh)) / 2)
                           (real (min sw sh)) (real (min sw sh)) 0 0 224 224)]\<rparr>"
  have eq: "getProcessedCanvas s = (Some ?out, s\<lparr>processingCanvasRef := Some ?out\<rparr>)"
    using assms h getProcessedCanvas_Some [of s src sw sh canvas] by simp
  have ex: "sw = 300 \<and> sh = 200 \<longrightarrow>
              snd (last (painted ?out)) = DrawImage src 50 0 200 200 0 0 224 224"
    by simp
  show "\<exists>out. getProcessedCanvas s = (Some out, s\<lparr>processingCanvasRef := Some out\<rparr>)
          \<and> width out = 224 \<and> height out = 224
          \<and> painted out =
              [(identity, ClearRect 0 0 224 224),
               (if shouldFlip s then (- 1, 0, 0, 1, 224, 0) else identity,
                DrawImage src ((real sw - real (min sw sh)) / 2)
                  ((real sh - real (min sw sh)) / 2)
                  (real (min sw sh)) (real (min sw sh)) 0 0 224 224)]
          \<and> (sw = 300 \<and> sh = 200 \<longrightarrow>
                snd (last (painted out)) = DrawImage src 50 0 200 200 0 0 224 224)"
    by (rule exI [of _ ?out]) (use eq ex in simp)
next
  show "apply_matrix (- 1, 0, 0, 1, 224, 0) (x, y) = (224 - x, y)"
    by (simp add: apply_matrix_def)
  show "apply_matrix identity (x, y) = (x, y)"
    by (simp add: apply_matrix_def identity_def)
qed

theorem getProcessedCanvas_normalizes_witness:
  "(\<exists>out. getProcessedCanvas (photoApp\<lparr>shouldFlip := True\<rparr>) =
            (Some out, photoApp\<lparr>shouldFlip := True, processingCanvasRef := Some out\<rparr>)
      \<and> width out = 224 \<and> height out = 224
      \<and> painted out =
          [(identity, ClearRect 0 0 224 224),
           ((- 1, 0, 0, 1, 224, 0), DrawImage (ImageSource photo) 50 0 200 200 0 0 224 224)])
   \<and> fst (getProcessedCanvas readyApp) = None"
proof -
  have p: "pick_source (photoApp\<lparr>shouldFlip := True\<rparr>) = (Some (ImageSource photo), 300, 200)"
    by (simp add: pick_source_def photoApp_def readyApp_eq photo_def)
  have q: "pick_source readyApp = (None, 0, 0)"
    by (simp add: pick_source_def readyApp_eq)
  have c: "processingCanvasRef (photoApp\<lparr>shouldFlip := True\<rparr>) = Some fresh_canvas"
    "context2d fresh_canvas" "shouldFlip (photoApp\<lparr>shouldFlip := True\<rparr>)"
    by (simp_all add: photoApp_def readyApp_eq fresh_canvas_def)
  from getProcessedCanvas_normalizes [OF p, of 0 0] c
  have "\<exists>out. getProcessedCanvas (photoApp\<lparr>shouldFlip := True\<rparr>) =
            (Some out, photoApp\<lparr>shouldFlip := True, processingCanvasRef := Some out\<rparr>)
      \<and> width out = 224 \<and> height out = 224
      \<and> painted out =
          [(identity, ClearRect 0 0 224 224),
           ((- 1, 0, 0, 1, 224, 0), DrawImage (ImageSource photo) 50 0 200 200 0 0 224 224)]"
    by auto
  moreover from getProcessedCanvas_normalizes [OF q, of 0 0]
  have "fst (getProcessedCanvas readyApp) = None" by simp
  ultimately show ?thesis by blast
qed

text \<open>
  Claim C5 as it was stated fails where the scratch canvas yields no 2D context: a
  300 by 200 image is mounted, and still no buffer is returned.
\<close>

theorem getProcessedCanvas_no_context:
  "pick_source (photoApp\<lparr>processingCanvasRef := Some (fresh_canvas\<lparr>context2d := False\<rparr>)\<rparr>) =
     (Some (ImageSource photo), 300, 200)
   \<and> fst (getProcessedCanvas
            (photoApp\<lparr>processingCanvasRef := Some (fresh_canvas\<lparr>context2d := False\<rparr>)\<rparr>)) = None"
  by (simp add: pick_source_def getProcessedCanvas_def photoApp_def readyApp_eq
      photo_def fresh_canvas_def)

section \<open>The feedback log\<close>

lemma history_addFeedbackToLog:
  "feedbackHistory (addFeedbackToLog now original corrected type s) =
     take 5 (\<lparr>timestamp = now, originalLabel = original, correctedLabel = corrected,
              ftype = type\<rparr> # feedbackHistory s)"
  by (simp add: addFeedbackToLog_def Let_def)

lemma stored_addFeedbackToLog:
  "tm_feedback_history (localStorage (addFeedbackToLog now original corrected type s)) =
     Some (feedbackHistory (addFeedbackToLog now original corrected type s))"
  by (simp add: addFeedbackToLog_def Let_def)

lemma take_append_take: "take n (xs @ take n ys) = take n (xs @ ys)"
  by (simp add: min_def)

lemma history_add_entryOf:
  "feedbackHistory (addFeedbackToLog now original corrected type s) =
     take 5 (entryOf (now, original, corrected, type) # feedbackHistory s)"
  by (simp add: history_addFeedbackToLog entryOf_def)

lemma history_appendInSequence:
  "cs \<noteq> [] \<Longrightarrow>
   feedbackHistory (appendInSequence cs s) = take 5 (rev (map entryOf cs) @ feedbackHistory s)"
proof (induction cs s rule: appendInSequence.induct)
  case (1 s)
  then show ?case by simp
next
  case (2 now original corrected type rest s)
  show ?case
  proof (cases rest)
    case Nil
    then show ?thesis by (simp add: history_add_entryOf)
  next
    case (Cons c cs')
    then have "rest \<noteq> []" by simp
    then have "feedbackHistory (appendInSequence rest (addFeedbackToLog now original corrected type s)) =
            take 5 (rev (map entryOf rest)
                    @ feedbackHistory (addFeedbackToLog now original corrected type s))"
      by (rule "2.IH")
    also have "\<dots> = take 5 (rev (map entryOf rest)
                    @ take 5 (entryOf (now, original, corrected, type) # feedbackHistory s))"
      by (simp only: history_add_entryOf)
    also have "\<dots> = take 5 (rev (map entryOf rest)
                    @ entryOf (now, original, corrected, type) # feedbackHistory s)"
      by (rule take_append_take)
    finally show ?thesis by simp
  qed
qed

lemma stored_appendInSequence:
  "cs \<noteq> [] \<Longrightarrow>
   tm_feedback_history (localStorage (appendInSequence cs s)) =
     Some (feedbackHistory (appendInSequence cs s))"
proof (induction cs s rule: appendInSequence.induct)
  case (1 s)
  then show ?case by simp
next
  case (2 now original corrected type rest s)
  show ?case
  proof (cases rest)
    case Nil
    then show ?thesis by (simp add: stored_addFeedbackToLog)
  next
    case (Cons c cs')
    with "2.IH" show ?thesis by simp
  qed
qed

text \<open>
  Claim C6. One append puts the new event in front, keeps the first five entries and
  writes the same list to \<open>localStorage\<close>. Six appends that start from an empty history
  leave exactly the last five events, newest first; the first event is gone; and that
  list is what is stored.
\<close>

theorem append_keeps_newest_five:
  "feedbackHistory (addFeedbackToLog now original corrected type s) =
     take 5 (\<lparr>timestamp = now, originalLabel = original, correctedLabel = corrected,
              ftype = type\<rparr> # feedbackHistory s)
   \<and> tm_feedback_history (localStorage (addFeedbackToLog now original corrected type s)) =
       Some (feedbackHistory (addFeedbackToLog now original corrected type s))
   \<and> (feedbackHistory s = [] \<longrightarrow>
        feedbackHistory (appendInSequence [c1, c2, c3, c4, c5, c6] s) =
          [entryOf c6, entryOf c5, entryOf c4, entryOf c3, entryOf c2]
        \<and> length (feedbackHistory (appendInSequence [c1, c2, c3, c4, c5, c6] s)) = 5
        \<and> tm_feedback_history (localStorage (appendInSequence [c1, c2, c3, c4, c5, c6] s)) =
            Some [entryOf c6, entryOf c5, entryOf c4, entryOf c3, entryOf c2])"
proof (intro conjI impI)
  show "feedbackHistory (addFeedbackToLog now original corrected type s) =
     take 5 (\<lparr>timestamp = now, originalLabel = original, correctedLabel = corrected,
              ftype = type\<rparr> # feedbackHistory s)"
    by (rule history_addFeedbackToLog)
  show "tm_feedback_history (localStorage (addFeedbackToLog now original corrected type s)) =
       Some (feedbackHistory (addFeedbackToLog now original corrected type s))"
    by (rule stored_addFeedbackToLog)
next
  assume e: "feedbackHistory s = []"
  show h: "feedbackHistory (appendInSequence [c1, c2, c3, c4, c5, c6] s) =
          [entryOf c6, entryOf c5, entryOf c4, entryOf c3, entryOf c2]"
    by (simp add: history_appendInSequence e)
  then show "length (feedbackHistory (appendInSequence [c1, c2, c3, c4, c5, c6] s)) = 5"
    by simp
  show "tm_feedback_history (localStorage (appendInSequence [c1, c2, c3, c4, c5, c6] s)) =
            Some [entryOf c6, entryOf c5, entryOf c4, entryOf c3, entryOf c2]"
    using stored_appendInSequence [of "[c1, c2, c3, c4, c5, c6]" s] h by simp
qed

theorem append_keeps_newest_five_witness:
  "feedbackHistory
     (appendInSequence
        [(1, ''A'', ''A'', CONFIRMATION), (2, ''B'', ''b'', CORRECTION),
         (3, ''C'', ''C'', CONFIRMATION), (4, ''D'', ''d'', CORRECTION),
         (5, ''E'', ''E'', CONFIRMATION), (6, ''F'', ''f'', CORRECTION)] readyApp) =
     [\<lparr>timestamp = 6, originalLabel = ''F'', correctedLabel = ''f'', ftype = CORRECTION\<rparr>,
      \<lparr>timestamp = 5, originalLabel = ''E'', correctedLabel = ''E'', ftype = CONFIRMATION\<rparr>,
      \<lparr>timestamp = 4, originalLabel = ''D'', correctedLabel = ''d'', ftype = CORRECTION\<rparr>,
      \<lparr>timestamp = 3, originalLabel = ''C'', correctedLabel = ''C'', ftype = CONFIRMATION\<rparr>,
      \<lparr>timestamp = 2, originalLabel = ''B'', correctedLabel = ''b'', ftype = CORRECTION\<rparr>]"
  using append_keeps_newest_five
    [of 0 "[]" "[]" CONFIRMATION readyApp
        "(1, ''A'', ''A'', CONFIRMATION)" "(2, ''B'', ''b'', CORRECTION)"
        "(3, ''C'', ''C'', CONFIRMATION)" "(4, ''D'', ''d'', CORRECTION)"
        "(5, ''E'', ''E'', CONFIRMATION)" "(6, ''F'', ''f'', CORRECTION)"]
  by (simp add: readyApp_eq entryOf_def)

section \<open>Confirming a candidate\<close>

lemma handleCorrectFeedback_eq:
  "\<exists>t w1. handleCorrectFeedback g now s =
     (addFeedbackToLog now (labelAtCursor s) (labelAtCursor s) CONFIRMATION
        (s\<lparr>feedbackGiven := True\<rparr>))
     \<lparr>network := w1, feedbackResponse := t,
      timers := timers s @ [(4000, Reload)]\<rparr>"
proof -
  let ?s2 = "addFeedbackToLog now (labelAtCursor s) (labelAtCursor s) CONFIRMATION
               (s\<lparr>feedbackGiven := True\<rparr>)"
  obtain t w1 where "processFeedback g (labelAtCursor s) True (network ?s2) = (Inr t, w1)"
    using processFeedback_total by blast
  moreover have "timers ?s2 = timers s" by (simp add: addFeedbackToLog_def Let_def)
  ultimately have "handleCorrectFeedback g now s =
      ?s2\<lparr>network := w1, feedbackResponse := t, timers := timers s @ [(4000, Reload)]\<rparr>"
    by (simp add: handleCorrectFeedback_def Let_def)
  then show ?thesis by blast
qed

lemma reload_clears:
  "predictions (reload s) = [] \<and> predictionIndex (reload s) = 0
   \<and> \<not> isManualInput (reload s) \<and> manualValue (reload s) = []
   \<and> \<not> feedbackGiven (reload s) \<and> feedbackResponse (reload s) = None
   \<and> insight (reload s) = None \<and> \<not> isInsightLoading (reload s)
   \<and> error (reload s) = None \<and> timers (reload s) = []
   \<and> resultArea (reload s) = ReadyPlaceholder"
  by (simp add: reload_def mount_def resultArea_def Let_def)

lemma reload_history:
  "tm_feedback_history (localStorage s) = Some (feedbackHistory s) \<Longrightarrow>
   feedbackHistory (reload s) = feedbackHistory s"
  by (simp add: reload_def mount_def Let_def)

text \<open>
  Claim C7, as amended. Confirming a candidate whose label is not empty puts in front of
  the log, and stores, an event of kind CONFIRMATION whose original and corrected label
  are both that label; the feedback is marked as given; a reload is scheduled 4000 ms
  after the acknowledgement arrived; and the reload leaves predictions, cursor,
  manual-entry flag and text, feedback flag and response, insight, loading flag and
  error at their initial values, with the READY placeholder shown and the log kept.
\<close>

theorem confirm_logs_and_resets:
  assumes "predictionIndex s < length (predictions s)"
    and "className (predictions s ! predictionIndex s) \<noteq> []"
  shows "feedbackGiven (handleCorrectFeedback g now s)
    \<and> feedbackHistory (handleCorrectFeedback g now s) =
        take 5 (\<lparr>timestamp = now,
                 originalLabel = className (predictions s ! predictionIndex s),
                 correctedLabel = className (predictions s ! predictionIndex s),
                 ftype = CONFIRMATION\<rparr> # feedbackHistory s)
    \<and> tm_feedback_history (localStorage (handleCorrectFeedback g now s)) =
        Some (feedbackHistory (handleCorrectFeedback g now s))
    \<and> timers (handleCorrectFeedback g now s) = timers s @ [(4000, Reload)]
    \<and> predictions (reload (handleCorrectFeedback g now s)) = []
    \<and> predictionIndex (reload (handleCorrectFeedback g now s)) = 0
    \<and> \<not> isManualInput (reload (handleCorrectFeedback g now s))
    \<and> manualValue (reload (handleCorrectFeedback g now s)) = []
    \<and> \<not> feedbackGiven (reload (handleCorrectFeedback g now s))
    \<and> feedbackResponse (reload (handleCorrectFeedback g now s)) = None
    \<and> insight (reload (handleCorrectFeedback g now s)) = None
    \<and> \<not> isInsightLoading (reload (handleCorrectFeedback g now s))
    \<and> error (reload (handleCorrectFeedback g now s)) = None
    \<and> resultArea (reload (handleCorrectFeedback g now s)) = ReadyPlaceholder
    \<and> feedbackHistory (reload (handleCorrectFeedback g now s)) =
        feedbackHistory (handleCorrectFeedback g now s)"
proof -
  from assms have l: "labelAtCursor s = className (predictions s ! predictionIndex s)"
    by (simp add: labelAtCursor_def)
  obtain t w1 where eq: "handleCorrectFeedback g now s =
     (addFeedbackToLog now (labelAtCursor s) (labelAtCursor s) CONFIRMATION
        (s\<lparr>feedbackGiven := True\<rparr>))
     \<lparr>network := w1, feedbackResponse := t, timers := timers s @ [(4000, Reload)]\<rparr>"
    using handleCorrectFeedback_eq by blast
  have given: "feedbackGiven (handleCorrectFeedback g now s)"
    by (simp add: eq addFeedbackToLog_def Let_def)
  have hist: "feedbackHistory (handleCorrectFeedback g now s) =
        take 5 (\<lparr>timestamp = now,
                 originalLabel = className (predictions s ! predictionIndex s),
                 correctedLabel = className (predictions s ! predictionIndex s),
                 ftype = CONFIRMATION\<rparr> # feedbackHistory s)"
    by (simp add: eq l history_addFeedbackToLog)
  have stored: "tm_feedback_history (localStorage (handleCorrectFeedback g now s)) =
        Some (feedbackHistory (handleCorrectFeedback g now s))"
    by (simp add: eq stored_addFeedbackToLog)
  have tm: "timers (handleCorrectFeedback g now s) = timers s @ [(4000, Reload)]"
    by (simp add: eq)
  from given hist stored tm reload_clears [of "handleCorrectFeedback g now s"]
    reload_history [OF stored]
  show ?thesis by simp
qed

lemma processFeedback_answering:
  "processFeedback (answering reply) label isCorrect w =
     (Inr (Some reply), w\<lparr>events := events w @ [Call]\<rparr>)"
  by (simp add: processFeedback_eq answering_def callWithRetry_success)

theorem confirm_logs_and_resets_witness:
  "feedbackGiven (handleCorrectFeedback (answering ''Great!'') 1700000000000 bookApp)
   \<and> feedbackHistory (handleCorrectFeedback (answering ''Great!'') 1700000000000 bookApp) =
       [\<lparr>timestamp = 1700000000000, originalLabel = ''Book'', correctedLabel = ''Book'',
         ftype = CONFIRMATION\<rparr>]
   \<and> timers (handleCorrectFeedback (answering ''Great!'') 1700000000000 bookApp) = [(4000, Reload)]
   \<and> predictions (reload (handleCorrectFeedback (answering ''Great!'') 1700000000000 bookApp)) = []
   \<and> feedbackHistory (reload (handleCorrectFeedback (answering ''Great!'') 1700000000000 bookApp)) =
       [\<lparr>timestamp = 1700000000000, originalLabel = ''Book'', correctedLabel = ''Book'',
         ftype = CONFIRMATION\<rparr>]"
  using confirm_logs_and_resets [of bookApp "answering ''Great!''" 1700000000000]
  by (simp add: bookApp_def readyApp_eq)

text \<open>
  Claim C7 as it was stated fails for a candidate whose label is the empty string: the
  event that is logged carries \<open>Unknown\<close>, not the candidate's label.
\<close>

theorem confirm_unnamed_logs_Unknown:
  "predictionIndex unnamedApp < length (predictions unnamedApp)
   \<and> className (predictions unnamedApp ! predictionIndex unnamedApp) = []
   \<and> feedbackHistory (handleCorrectFeedback (answering ''Great!'') 1700000000000 unnamedApp) =
       [\<lparr>timestamp = 1700000000000, originalLabel = ''Unknown'', correctedLabel = ''Unknown'',
         ftype = CONFIRMATION\<rparr>]"
  by (simp add: handleCorrectFeedback_def Let_def processFeedback_answering
      history_addFeedbackToLog labelAtCursor_def unnamedApp_def readyApp_eq)

section \<open>Manual entry\<close>

lemma trim_Nil_iff: "trim str = [] \<longleftrightarrow> (\<forall>c \<in> set str. isWhiteSpace c)"
proof
  assume "trim str = []"
  then have all: "\<forall>c \<in> set (dropWhile isWhiteSpace str). isWhiteSpace c"
    by (simp add: trim_def dropWhile_eq_Nil_conv)
  have "dropWhile isWhiteSpace str = []"
  proof (rule ccontr)
    assume ne: "dropWhile isWhiteSpace str \<noteq> []"
    then have "\<not> isWhiteSpace (hd (dropWhile isWhiteSpace str))" by (rule hd_dropWhile)
    moreover from ne have "hd (dropWhile isWhiteSpace str) \<in> set (dropWhile isWhiteSpace str)"
      by (rule hd_in_set)
    ultimately show False using all by blast
  qed
  then show "\<forall>c \<in> set str. isWhiteSpace c" by (simp add: dropWhile_eq_Nil_conv)
next
  assume "\<forall>c \<in> set str. isWhiteSpace c"
  then have d: "dropWhile isWhiteSpace str = []" by (simp add: dropWhile_eq_Nil_conv)
  show "trim str = []" unfolding trim_def d by simp
qed

lemma handleManualSubmit_eq:
  assumes "trim (manualValue s) \<noteq> []"
  shows "\<exists>w1. handleManualSubmit g now s =
     (addFeedbackToLog now (labelAtCursor s) (manualValue s) CORRECTION
        (s\<lparr>feedbackGiven := True\<rparr>))
     \<lparr>network := w1,
      feedbackResponse :=
        Some (''Recorded '' @ dquote @ manualValue s @ dquote
              @ '' as correction. Refreshing module...''),
      timers := timers s @ [(4000, Reload)]\<rparr>"
proof -
  let ?s2 = "addFeedbackToLog now (labelAtCursor s) (manualValue s) CORRECTION
               (s\<lparr>feedbackGiven := True\<rparr>)"
  obtain t w1 where "processFeedback g (manualValue s) False (network ?s2) = (Inr t, w1)"
    using processFeedback_total by blast
  moreover have "timers ?s2 = timers s" by (simp add: addFeedbackToLog_def Let_def)
  ultimately have "handleManualSubmit g now s =
      ?s2\<lparr>network := w1,
          feedbackResponse :=
            Some (''Recorded '' @ dquote @ manualValue s @ dquote
                  @ '' as correction. Refreshing module...''),
          timers := timers s @ [(4000, Reload)]\<rparr>"
    using assms by (simp add: handleManualSubmit_def Let_def)
  then show ?thesis by blast
qed

text \<open>
  Claim C8. A manual submission whose text is empty or consists of white space only
  changes nothing: the state after the handler is the state before it, so the form stays
  open, the log and the stored log are as they were, no request was made and no reload is
  scheduled.
\<close>

theorem blank_manual_submit_ignored:
  assumes "\<forall>c \<in> set (manualValue s). isWhiteSpace c"
  shows "handleManualSubmit g now s = s"
  using assms by (simp add: handleManualSubmit_def trim_Nil_iff)

theorem blank_manual_submit_ignored_witness:
  "handleManualSubmit (answering ''Noted.'') 1700000000000 blankEntryApp = blankEntryApp
   \<and> resultArea blankEntryApp = ManualEntryForm
   \<and> feedbackHistory blankEntryApp = []"
proof -
  have "\<forall>c \<in> set (manualValue blankEntryApp). isWhiteSpace c"
    by (simp add: blankEntryApp_def isWhiteSpace_def)
  then have "handleManualSubmit (answering ''Noted.'') 1700000000000 blankEntryApp = blankEntryApp"
    by (rule blank_manual_submit_ignored)
  then show ?thesis
    by (simp add: blankEntryApp_def bookApp_def readyApp_eq resultArea_def)
qed

text \<open>
  Claim C10. When the trimmed text of a manual submission is not empty, the event that is
  put in front of the log, and stored, has kind CORRECTION and carries as corrected label
  the text exactly as it was submitted, white space at its ends included.
\<close>

theorem manual_correction_keeps_raw_text:
  assumes "trim (manualValue s) \<noteq> []"
  shows "feedbackHistory (handleManualSubmit g now s) =
           take 5 (\<lparr>timestamp = now, originalLabel = labelAtCursor s,
                    correctedLabel = manualValue s, ftype = CORRECTION\<rparr> # feedbackHistory s)
         \<and> tm_feedback_history (localStorage (handleManualSubmit g now s)) =
             Some (feedbackHistory (handleManualSubmit g now s))"
proof -
  obtain w1 where eq: "handleManualSubmit g now s =
     (addFeedbackToLog now (labelAtCursor s) (manualValue s) CORRECTION
        (s\<lparr>feedbackGiven := True\<rparr>))
     \<lparr>network := w1,
      feedbackResponse :=
        Some (''Recorded '' @ dquote @ manualValue s @ dquote
              @ '' as correction. Refreshing module...''),
      timers := timers s @ [(4000, Reload)]\<rparr>"
    using handleManualSubmit_eq [OF assms] by blast
  show ?thesis
    by (simp add: eq history_addFeedbackToLog stored_addFeedbackToLog)
qed

lemma trim_padded: "trim '' Novel '' = ''Novel''"
  by (simp add: trim_def isWhiteSpace_def)

theorem manual_correction_keeps_raw_text_witness:
  "trim (manualValue paddedEntryApp) = ''Novel''
   \<and> feedbackHistory (handleManualSubmit (answering ''Noted.'') 1700000000000 paddedEntryApp) =
       [\<lparr>timestamp = 1700000000000, originalLabel = ''Book'', correctedLabel = '' Novel '',
         ftype = CORRECTION\<rparr>]
   \<and> tm_feedback_history
       (localStorage (handleManualSubmit (answering ''Noted.'') 1700000000000 paddedEntryApp)) =
       Some [\<lparr>timestamp = 1700000000000, originalLabel = ''Book'', correctedLabel = '' Novel '',
              ftype = CORRECTION\<rparr>]"
proof -
  have t: "trim (manualValue paddedEntryApp) = ''Novel''"
    by (simp add: paddedEntryApp_def trim_padded)
  then have ne: "trim (manualValue paddedEntryApp) \<noteq> []" by simp
  have l: "labelAtCursor paddedEntryApp = ''Book''"
    by (simp add: labelAtCursor_def paddedEntryApp_def bookApp_def readyApp_eq)
  have m: "manualValue paddedEntryApp = '' Novel ''" "feedbackHistory paddedEntryApp = []"
    by (simp_all add: paddedEntryApp_def bookApp_def readyApp_eq)
  from manual_correction_keeps_raw_text [OF ne, of "answering ''Noted.''" 1700000000000] t l m
  show ?thesis by simp
qed

section \<open>Selecting a new input\<close>

text \<open>
  Claim C9, as amended. In every state, also one with an analysis in flight, choosing a
  new image stores the file and starts reading it; and in whatever state the read ends,
  its callback resets the cursor, the manual-entry flag and text, the feedback flag and
  response, the insight and its loading flag, and empties the predictions, so that the
  result area shows the READY placeholder in place of the review that was on show. The
  status and the error message are no part of the reset: they are as they were.
\<close>

theorem new_image_resets_session:
  "handleTargetImageChange (Some f) s =
     s\<lparr>targetImage := Some f, inFlight := inFlight s @ [AwaitFileRead f]\<rparr>
   \<and> predictionIndex (reader_onloadend f result s) = 0
   \<and> \<not> isManualInput (reader_onloadend f result s)
   \<and> manualValue (reader_onloadend f result s) = []
   \<and> \<not> feedbackGiven (reader_onloadend f result s)
   \<and> feedbackResponse (reader_onloadend f result s) = None
   \<and> insight (reader_onloadend f result s) = None
   \<and> \<not> isInsightLoading (reader_onloadend f result s)
   \<and> predictions (reader_onloadend f result s) = []
   \<and> resultArea (reader_onloadend f result s) = ReadyPlaceholder
   \<and> imagePreview (reader_onloadend f result s) = result
   \<and> targetImage (reader_onloadend f result s) = targetImage s
   \<and> status (reader_onloadend f result s) = status s
   \<and> error (reader_onloadend f result s) = error s"
  by (simp add: handleTargetImageChange_def reader_onloadend_def resetFeedback_def
      resultArea_def Let_def)

text \<open>
  Claim C9 as it was stated fails where an analysis has failed: a new image is chosen
  and read, and the status is still \<open>ERROR\<close> with its message, so the session state is
  not discarded in full and the machine is not back at its idle state. The same holds
  of a running analysis: the status stays \<open>RUNNING\<close> and the analysis stays in flight.
\<close>

theorem new_image_keeps_error_status:
  "status (reader_onloadend ''next.png'' (Some ''data:image/png;base64,AAAA'')
             (handleTargetImageChange (Some ''next.png'') failedApp)) = ERROR
   \<and> error (reader_onloadend ''next.png'' (Some ''data:image/png;base64,AAAA'')
             (handleTargetImageChange (Some ''next.png'') failedApp)) =
       Some ''Analysis engine error.''
   \<and> status (reader_onloadend ''next.png'' (Some ''data:image/png;base64,AAAA'')
             (handleTargetImageChange (Some ''next.png'') (analyzeImage photoApp))) = RUNNING
   \<and> length (inFlight (reader_onloadend ''next.png'' (Some ''data:image/png;base64,AAAA'')
             (handleTargetImageChange (Some ''next.png'') (analyzeImage photoApp)))) = 1"
  by (simp add: handleTargetImageChange_def reader_onloadend_def resetFeedback_def
      analyzeImage_def getProcessedCanvas_def pick_source_def failedApp_def photoApp_def
      photo_def readyApp_eq fresh_canvas_def Let_def)

text \<open>
  An analysis that is in flight when the file is read is not cancelled: it is still in
  flight afterwards, and when \<open>predict\<close> returns, its continuation stores the ranked
  predictions of the frame it was started on.
\<close>

lemma analysis_in_flight_survives_new_image:
  assumes "AwaitPredict buffer \<in> set (inFlight s)"
  shows "AwaitPredict buffer \<in> set (inFlight (reader_onloadend f result s))
         \<and> predictions (analyzeImage_predicted buffer (Inr results) (reader_onloadend f result s)) =
             sortedResults results"
proof -
  have "inFlight (reader_onloadend f result s) = remove1 (AwaitFileRead f) (inFlight s)"
    by (simp add: reader_onloadend_def resetFeedback_def Let_def)
  with assms have "AwaitPredict buffer \<in> set (inFlight (reader_onloadend f result s))"
    by simp
  moreover have
    "predictions (analyzeImage_predicted buffer (Inr results) (reader_onloadend f result s)) =
       sortedResults results"
    by (simp add: analyzeImage_predicted_def Let_def)
  ultimately show ?thesis by blast
qed

text \<open>
  Switching the source to the camera runs no reset at all: with the second candidate
  under review, the stream starts and predictions, cursor and insight are as they were,
  and the candidate stays on show.
\<close>

theorem camera_keeps_pending_review:
  "predictions (setInputSource True CAMERA reviewApp) = catDogFish
   \<and> predictionIndex (setInputSource True CAMERA reviewApp) = 1
   \<and> insight (setInputSource True CAMERA reviewApp) = Some ''Dogs bark.''
   \<and> inputSource (setInputSource True CAMERA reviewApp) = CAMERA
   \<and> isCameraActive (setInputSource True CAMERA reviewApp)
   \<and> resultArea (setInputSource True CAMERA reviewApp) = DetectedSignal"
  by (simp add: setInputSource_def startCamera_def reviewApp_def readyApp_eq resultArea_def
      catDogFish_def Let_def)

end
